theory Spec2Isabelle
  imports Main
begin

chapter \<open>The generation pipeline of the Infinite Fun extension\<close>

text \<open>
  A shallow embedding of the extension's service worker: the trace sanitizer of
  \<^verbatim>\<open>weaveShim.js\<close>, the two image-provider clients of \<^verbatim>\<open>apiHandler.js\<close>, the prompt
  generator of \<^verbatim>\<open>llmHandler.js\<close> and the two orchestrator entry points of
  \<^verbatim>\<open>background.js\<close>. The repository holds two generations of these modules; the
  embedding follows the current one, in which \<^verbatim>\<open>background.js\<close> calls
  \<^verbatim>\<open>weave.startTrace\<close>, \<^verbatim>\<open>weave.startChildSpan\<close> and \<^verbatim>\<open>weave.endTrace\<close> and the
  image clients return \<^verbatim>\<open>{url, base64, imageType}\<close> objects.
\<close>

section \<open>JavaScript strings\<close>

text \<open>
  Strings are lists of characters. \<^verbatim>\<open>String.prototype.toLowerCase\<close> is modelled on the
  Latin letters A to Z; within the 8-bit characters of \<^typ>\<open>string\<close> no other character
  lower-cases to an ASCII letter, so the substring tests below are not affected.
\<close>

definition toLowerChar :: "char \<Rightarrow> char" where
  "toLowerChar c =
     (case map_of (zip ''ABCDEFGHIJKLMNOPQRSTUVWXYZ'' ''abcdefghijklmnopqrstuvwxyz'') c of
        Some l \<Rightarrow> l
      | None \<Rightarrow> c)"

definition toLowerCase :: "string \<Rightarrow> string" where
  "toLowerCase s = map toLowerChar s"

text \<open>\<^verbatim>\<open>s.startsWith(p)\<close>\<close>

definition startsWith :: "string \<Rightarrow> string \<Rightarrow> bool" where
  "startsWith s p = (take (length p) s = p)"

text \<open>\<^verbatim>\<open>s.includes(sub)\<close>: \<^verbatim>\<open>sub\<close> occurs at some position of \<^verbatim>\<open>s\<close>.\<close>

fun str_includes :: "string \<Rightarrow> string \<Rightarrow> bool" where
  "str_includes [] sub = (sub = [])"
| "str_includes (c # s) sub = (startsWith (c # s) sub \<or> str_includes s sub)"

text \<open>\<^verbatim>\<open>s.substring(n)\<close>\<close>

definition substring :: "string \<Rightarrow> nat \<Rightarrow> string" where
  "substring s n = drop n s"

section \<open>The trace sanitizer (weaveShim.js, sanitizeInputs)\<close>

text \<open>
  The sanitizer is the function \<^verbatim>\<open>sanitizeInputs\<close> of the current \<^verbatim>\<open>weaveShim.js\<close>, which
  \<^verbatim>\<open>startTrace\<close>, \<^verbatim>\<open>startChildSpan\<close> and \<^verbatim>\<open>op\<close> apply to the inputs of a span; it is the
  sanitizer that the calls \<^verbatim>\<open>weave.startTrace\<close> and \<^verbatim>\<open>weave.startChildSpan\<close> of
  \<^verbatim>\<open>background.js\<close> reach, and the one whose pattern list ends in \<^verbatim>\<open>key\<close>. The older
  revision of the module has no such function: its \<^verbatim>\<open>op\<close> sanitizes inline, one level deep
  and without the pattern \<^verbatim>\<open>key\<close>, and it exports no \<^verbatim>\<open>startTrace\<close>, so the orchestrator
  modelled here cannot call it. Everything below is about \<^verbatim>\<open>sanitizeInputs\<close>.

  Span payloads are JSON-like values. An object is the list of its own enumerable
  properties in \<^verbatim>\<open>Object.entries\<close> order, which is also what \<^verbatim>\<open>JSON.stringify\<close> writes when
  the payload is sent; the sanitizer rebuilds the object in that order.
\<close>

datatype json =
    JNull
  | JBool bool
  | JNum int
  | JStr string
  | JArr "json list"
  | JObj "(string \<times> json) list"

definition REDACTED :: json where
  "REDACTED = JStr ''[REDACTED]''"

text \<open>
  The test on a property name:
  \<^verbatim>\<open>const lowerKey = key.toLowerCase();
  if (lowerKey.includes('apikey') || lowerKey.includes('api_key') ||
      lowerKey.includes('secret') || lowerKey.includes('token') ||
      lowerKey.includes('password') || lowerKey.includes('key'))\<close>
\<close>

definition sensitive :: "string \<Rightarrow> bool" where
  "sensitive key =
     (let lowerKey = toLowerCase key in
        str_includes lowerKey ''apikey'' \<or>
        str_includes lowerKey ''api_key'' \<or>
        str_includes lowerKey ''secret'' \<or>
        str_includes lowerKey ''token'' \<or>
        str_includes lowerKey ''password'' \<or>
        str_includes lowerKey ''key'')"

text \<open>\<^verbatim>\<open>typeof v === 'object'\<close>, which holds of \<^verbatim>\<open>null\<close>, arrays and objects.\<close>

fun typeof_object :: "json \<Rightarrow> bool" where
  "typeof_object JNull = True"
| "typeof_object (JArr _) = True"
| "typeof_object (JObj _) = True"
| "typeof_object _ = False"

text \<open>
  \<^verbatim>\<open>function sanitizeInputs(obj) {
      if (typeof obj !== 'object' || obj === null) return obj;
      if (Array.isArray(obj)) return obj.map(sanitizeInputs);
      const sanitized = {};
      for (const [key, value] of Object.entries(obj)) {
          if (<key is sensitive>)                sanitized[key] = '[REDACTED]';
          else if (typeof value === 'object')    sanitized[key] = sanitizeInputs(value);
          else                                   sanitized[key] = value;
      }
      return sanitized;
  }\<close>

  The object \<^verbatim>\<open>sanitized\<close> starts as \<^verbatim>\<open>{}\<close> and is filled by assignment. An assignment
  \<^verbatim>\<open>sanitized[key] = w\<close> creates the own property \<^verbatim>\<open>key\<close> for every name but one: the name
  \<^verbatim>\<open>__proto__\<close> is an accessor inherited from \<^verbatim>\<open>Object.prototype\<close>, so the assignment runs
  its setter, which replaces the prototype of \<^verbatim>\<open>sanitized\<close> when \<^verbatim>\<open>w\<close> is an object or
  \<^verbatim>\<open>null\<close> and does nothing otherwise. In neither case does \<^verbatim>\<open>sanitized\<close> get a property,
  so an own property \<^verbatim>\<open>__proto__\<close> of the input (as \<^verbatim>\<open>JSON.parse\<close> creates one) is absent
  from the properties of the result. The other assignments are not affected by the new
  prototype: it is \<^verbatim>\<open>null\<close> or a fresh object or array with writable data properties only.
  (The name \<^verbatim>\<open>__proto__\<close> is not sensitive, so it always takes one of the last two
  branches.)
\<close>

fun sanitizeInputs :: "json \<Rightarrow> json" where
  "sanitizeInputs (JArr xs) = JArr (map sanitizeInputs xs)"
| "sanitizeInputs (JObj kvs) =
     JObj (filter (\<lambda>(key, w). key \<noteq> ''__proto__'')
             (map (\<lambda>(key, v).
                     (key, if sensitive key then REDACTED
                           else if typeof_object v then sanitizeInputs v
                           else v)) kvs))"
| "sanitizeInputs obj = obj"

section \<open>Effects, thrown values and responses\<close>

text \<open>
  What a routine does to the outside world is recorded as a list of events, in program
  order: badge updates (the status signal), the durable write of the prompt, calls of the
  trace client, the network calls of the two stages, the polling delay, the message to the
  page and the console lines of the guards. \<open>Submit\<close> and \<open>Poll\<close> carry the provider whose
  client issued them.
\<close>

datatype provider = FAL | Replicate

datatype event =
    Badge string
  | BadgeColor string
  | StorageSet string
  | TraceStart string json
  | TraceEndError string
  | LLMFetch string string string
  | Submit provider string string
  | Poll provider string
  | Sleep nat
  | TabMessage int string string
  | BackgroundTrace string
  | ConsoleLog string

text \<open>A thrown value and its \<^verbatim>\<open>toString()\<close>.\<close>

datatype thrown = Error string | TypeError string

fun toString :: "thrown \<Rightarrow> string" where
  "toString (Error msg) = ''Error: '' @ msg"
| "toString (TypeError msg) = ''TypeError: '' @ msg"

text \<open>
  The ways a \<^verbatim>\<open>fetch\<close> followed by \<^verbatim>\<open>response.json()\<close> can end: it throws; it answers
  with \<^verbatim>\<open>response.ok\<close> false (the payload is the text the client puts in its message); or
  it answers with data.
\<close>

datatype 'a response = NetworkError thrown | HttpError string | HttpOk 'a

type_synonym 'a outcome = "thrown + 'a"

record image_result =
  url :: string
  base64 :: "string option"
  imageType :: string

section \<open>The FAL client (apiHandler.js, getImageFromFal)\<close>

text \<open>
  The fields of a FAL response the client reads; an absent or empty string is \<open>[]\<close>, and
  \<open>fal_raw\<close> is \<^verbatim>\<open>JSON.stringify(data)\<close>.
\<close>

datatype fal_image = FalImage (image_url: string) (image_base64: string)

record fal_data =
  fal_status :: string
  fal_images :: "fal_image list"
  fal_request_id :: string
  fal_error :: string
  fal_raw :: string

text \<open>
  \<^verbatim>\<open>let modelPath = 'fal-ai/z-image/turbo';
  if (model && model.startsWith('fal-')) {
      if (model === 'fal-z-image-turbo') modelPath = 'fal-ai/z-image/turbo';
      else if (model.startsWith('fal-')) modelPath = model.substring(4);
      else modelPath = model;
  }\<close>
\<close>

definition fal_modelPath :: "string \<Rightarrow> string" where
  "fal_modelPath model =
     (if model \<noteq> [] \<and> startsWith model ''fal-'' then
        (if model = ''fal-z-image-turbo'' then ''fal-ai/z-image/turbo''
         else if startsWith model ''fal-'' then substring model 4
         else model)
      else ''fal-ai/z-image/turbo'')"

text \<open>
  The polling loop \<^verbatim>\<open>while (attempts < 20) { await sleep(500); fetch status; ...; attempts++ }\<close>.
  \<open>statuses k\<close> is what the status endpoint answers to the poll made with \<open>attempts = k\<close>.
\<close>

function fal_poll ::
  "string \<Rightarrow> string \<Rightarrow> (nat \<Rightarrow> fal_data response) \<Rightarrow> nat \<Rightarrow> event list \<Rightarrow>
   image_result outcome \<times> event list" where
  "fal_poll apiUrl requestId statuses attempts evs =
     (if attempts < 20 then
        (let evs' = evs @ [Sleep 500, Poll FAL (apiUrl @ ''/requests/'' @ requestId)] in
         case statuses attempts of
           NetworkError e \<Rightarrow> (Inl e, evs')
         | HttpError statusText \<Rightarrow> (Inl (Error (''FAL Status Error: '' @ statusText)), evs')
         | HttpOk statusData \<Rightarrow>
             if fal_status statusData = ''COMPLETED'' then
               (case fal_images statusData of
                  img # _ \<Rightarrow>
                    (Inr \<lparr>url = image_url img,
                          base64 = (if image_base64 img \<noteq> [] then Some (image_base64 img)
                                    else None),
                          imageType = ''jpeg''\<rparr>, evs')
                | [] \<Rightarrow> (Inl (Error ''No image in completed response''), evs'))
             else if fal_status statusData = ''FAILED'' then
               (Inl (Error (''FAL Request Failed: '' @ fal_error statusData)), evs')
             else fal_poll apiUrl requestId statuses (attempts + 1) evs')
      else (Inl (Error ''FAL Request Timed Out''), evs))"
  by pat_completeness auto
termination
  by (relation "measure (\<lambda>(apiUrl, requestId, statuses, attempts, evs). 20 - attempts)") auto

declare fal_poll.simps [simp del]

text \<open>
  The client: model path, credential check, submit, then either the images of the submit
  response or the polling loop. Its \<^verbatim>\<open>catch\<close> logs and rethrows.
\<close>

definition getImageFromFal ::
  "string \<Rightarrow> string \<Rightarrow> string \<Rightarrow> fal_data response \<Rightarrow> (nat \<Rightarrow> fal_data response) \<Rightarrow>
   image_result outcome \<times> event list" where
  "getImageFromFal prompt apiKey model submitted statuses =
     (let modelPath = fal_modelPath model;
          apiUrl = ''https://fal.run/'' @ modelPath
      in if apiKey = [] then (Inl (Error ''FAL API Key is missing.''), [])
         else
           (let evs = [Submit FAL apiUrl prompt] in
            case submitted of
              NetworkError e \<Rightarrow> (Inl e, evs)
            | HttpError errorData \<Rightarrow> (Inl (Error (''FAL API Error: '' @ errorData)), evs)
            | HttpOk data \<Rightarrow>
                (case fal_images data of
                   img # _ \<Rightarrow>
                     (Inr \<lparr>url = image_url img,
                           base64 = (if image_base64 img \<noteq> [] then Some (image_base64 img)
                                     else None),
                           imageType = ''jpeg''\<rparr>, evs)
                 | [] \<Rightarrow>
                     if fal_request_id data = [] then
                       (Inl (Error (''FAL Response missing images and request_id: '' @
                                    fal_raw data)), evs)
                     else fal_poll apiUrl (fal_request_id data) statuses 0 evs)))"

section \<open>The Replicate client (apiHandler.js, getImageFromReplicate)\<close>

text \<open>\<^verbatim>\<open>data.output\<close>: absent, a string, or an array of strings.\<close>

datatype rep_output = NoOutput | OutStr string | OutArr "string list"

record rep_data =
  rep_status :: string
  rep_output :: rep_output
  rep_get_url :: string
  rep_error :: string
  rep_raw :: string

text \<open>
  \<^verbatim>\<open>url.match(/^data:image\/(\w+);base64,(.+)$/)\<close>: after \<^verbatim>\<open>data:image/\<close> a non-empty run of
  word characters, then \<^verbatim>\<open>;base64,\<close>, then a non-empty rest without line terminators.
  The result is the pair of the two groups.
\<close>

definition word_char :: "char \<Rightarrow> bool" where
  "word_char c =
     (c \<in> set ''ABCDEFGHIJKLMNOPQRSTUVWXYZabcdefghijklmnopqrstuvwxyz0123456789_'')"

definition line_terminator :: "char \<Rightarrow> bool" where
  "line_terminator c = (c = CHR 0x0A \<or> c = CHR 0x0D)"

definition match_data_uri :: "string \<Rightarrow> (string \<times> string) option" where
  "match_data_uri u =
     (if startsWith u ''data:image/'' then
        (let rest = drop 11 u;
             subtype = takeWhile word_char rest;
             rest' = dropWhile word_char rest;
             payload = drop 8 rest'
         in if subtype \<noteq> [] \<and> startsWith rest' '';base64,'' \<and> payload \<noteq> [] \<and>
               \<not> list_ex line_terminator payload
            then Some (subtype, payload)
            else None)
      else None)"

text \<open>\<^verbatim>\<open>const url = Array.isArray(output) ? output[0] : output;\<close>\<close>

fun first_output :: "rep_output \<Rightarrow> string option" where
  "first_output NoOutput = None"
| "first_output (OutStr u) = Some u"
| "first_output (OutArr []) = None"
| "first_output (OutArr (u # _)) = Some u"

text \<open>
  \<^verbatim>\<open>let imageType = 'jpeg';
  if (url.includes('.png')) imageType = 'png';
  if (url.includes('.webp')) imageType = 'webp';\<close>
\<close>

definition url_imageType :: "string \<Rightarrow> string" where
  "url_imageType u =
     (let t = ''jpeg'';
          t = (if str_includes u ''.png'' then ''png'' else t);
          t = (if str_includes u ''.webp'' then ''webp'' else t)
      in t)"

text \<open>
  The helper \<^verbatim>\<open>extractResult\<close>. When \<^verbatim>\<open>url\<close> is not a string, \<^verbatim>\<open>url.includes\<close> throws a
  TypeError.
\<close>

definition extractResult :: "rep_output \<Rightarrow> image_result outcome" where
  "extractResult out =
     (case first_output out of
        None \<Rightarrow> Inl (TypeError ''Cannot read properties of undefined (reading 'includes')'')
      | Some u \<Rightarrow>
          (case (if startsWith u ''data:image'' then match_data_uri u else None) of
             Some (subtype, payload) \<Rightarrow>
               Inr \<lparr>url = u, base64 = Some payload, imageType = subtype\<rparr>
           | None \<Rightarrow>
               Inr \<lparr>url = u, base64 = None, imageType = url_imageType u\<rparr>))"

text \<open>The truthiness of \<^verbatim>\<open>data.output\<close>.\<close>

fun output_truthy :: "rep_output \<Rightarrow> bool" where
  "output_truthy NoOutput = False"
| "output_truthy (OutStr u) = (u \<noteq> [])"
| "output_truthy (OutArr _) = True"

function replicate_poll ::
  "string \<Rightarrow> (nat \<Rightarrow> rep_data response) \<Rightarrow> nat \<Rightarrow> event list \<Rightarrow>
   image_result outcome \<times> event list" where
  "replicate_poll getUrl statuses attempts evs =
     (if attempts < 40 then
        (let evs' = evs @ [Sleep 500, Poll Replicate getUrl] in
         case statuses attempts of
           NetworkError e \<Rightarrow> (Inl e, evs')
         | HttpError statusText \<Rightarrow>
             (Inl (Error (''Replicate Status Error: '' @ statusText)), evs')
         | HttpOk data \<Rightarrow>
             if rep_status data = ''succeeded'' then (extractResult (rep_output data), evs')
             else if rep_status data = ''failed'' then
               (Inl (Error (''Replicate Request Failed: '' @ rep_error data)), evs')
             else if rep_status data = ''canceled'' then
               (Inl (Error ''Replicate Request Canceled''), evs')
             else replicate_poll getUrl statuses (attempts + 1) evs')
      else (Inl (Error ''Replicate Request Timed Out''), evs))"
  by pat_completeness auto
termination
  by (relation "measure (\<lambda>(getUrl, statuses, attempts, evs). 40 - attempts)") auto

declare replicate_poll.simps [simp del]

text \<open>The endpoint chosen for the two supported models; any other identifier has none.\<close>

definition replicate_endpoint :: "string \<Rightarrow> string option" where
  "replicate_endpoint model =
     (if model = ''replicate-z-image-turbo'' then
        Some ''https://api.replicate.com/v1/predictions''
      else if model = ''replicate-pruna-p-image'' then
        Some ''https://api.replicate.com/v1/models/prunaai/p-image/predictions''
      else None)"

definition getImageFromReplicate ::
  "string \<Rightarrow> string \<Rightarrow> string \<Rightarrow> rep_data response \<Rightarrow> (nat \<Rightarrow> rep_data response) \<Rightarrow>
   image_result outcome \<times> event list" where
  "getImageFromReplicate prompt apiKey model submitted statuses =
     (if apiKey = [] then (Inl (Error ''Replicate API Key is missing.''), [])
      else
        (case replicate_endpoint model of
           None \<Rightarrow> (Inl (Error (''Unknown Replicate model: '' @ model)), [])
         | Some apiUrl \<Rightarrow>
             (let evs = [Submit Replicate apiUrl prompt] in
              case submitted of
                NetworkError e \<Rightarrow> (Inl e, evs)
              | HttpError errorData \<Rightarrow>
                  (Inl (Error (''Replicate API Error: '' @ errorData)), evs)
              | HttpOk data \<Rightarrow>
                  if rep_status data = ''succeeded'' \<and> output_truthy (rep_output data) then
                    (extractResult (rep_output data), evs)
                  else if rep_get_url data = [] then
                    (Inl (Error (''Replicate Response missing get url: '' @ rep_raw data)), evs)
                  else replicate_poll (rep_get_url data) statuses 0 evs)))"

section \<open>The prompt generator (llmHandler.js, generatePromptFromTexts)\<close>

text \<open>An element of the page is a pair of its id and its text.\<close>

type_synonym element = "string \<times> string"

text \<open>\<^verbatim>\<open>xs.join(sep)\<close>\<close>

fun join :: "string \<Rightarrow> string list \<Rightarrow> string" where
  "join sep [] = []"
| "join sep [x] = x"
| "join sep (x # y # ys) = x @ sep @ join sep (y # ys)"

text \<open>\<^verbatim>\<open>s.trim()\<close>, on the white space of the 8-bit characters.\<close>

definition whitespace :: "char \<Rightarrow> bool" where
  "whitespace c =
     (c \<in> set [CHR 0x09, CHR 0x0A, CHR 0x0B, CHR 0x0C, CHR 0x0D, CHR 0x20, CHR 0xA0])"

definition trim :: "string \<Rightarrow> string" where
  "trim s = rev (dropWhile whitespace (rev (dropWhile whitespace s)))"

text \<open>
  \<^verbatim>\<open>let userPrompt = `Current Items: ${itemsList}`;
  if (previousPrompt) userPrompt += `\n\nPrevious Scene Description: ${previousPrompt}\n\n...`;
  else                userPrompt += `\n\nInstruction: Create a new fantasy scene ...`;\<close>
\<close>

definition userPrompt :: "element list \<Rightarrow> string \<Rightarrow> string" where
  "userPrompt texts previousPrompt =
     (let itemsList = join '', '' (map snd texts);
          u = ''Current Items: '' @ itemsList
      in if previousPrompt \<noteq> [] then
           u @ ''\<newline>\<newline>Previous Scene Description: '' @ previousPrompt @
               ''\<newline>\<newline>Instruction: Evolve the previous scene with the new items. Keep it concise (2-3 sentences).''
         else
           u @ ''\<newline>\<newline>Instruction: Create a new fantasy scene based on these items. Keep it concise (2-3 sentences).'')"

datatype usage = Usage (prompt_tokens: nat) (completion_tokens: nat) (total_tokens: nat)

text \<open>What the client reads of a completion: the first choice's text and the usage.\<close>

datatype llm_data = Completion_data (content: string) (usage_of: "usage option")

record prompt_result =
  prompt :: string
  model :: string
  usage :: "usage option"

text \<open>
  The generator checks the credential before any network call, issues one request whose
  user message is \<open>userPrompt texts previousPrompt\<close>, and returns the trimmed text.
\<close>

definition generatePromptFromTexts ::
  "element list \<Rightarrow> string \<Rightarrow> string \<Rightarrow> string \<Rightarrow> llm_data response \<Rightarrow>
   prompt_result outcome \<times> event list" where
  "generatePromptFromTexts texts apiKey mdl previousPrompt replied =
     (if apiKey = [] then (Inl (Error ''API Key is missing.''), [])
      else
        (let evs = [LLMFetch apiKey mdl (userPrompt texts previousPrompt)] in
         case replied of
           NetworkError e \<Rightarrow> (Inl e, evs)
         | HttpError msg \<Rightarrow> (Inl (Error (''OpenAI API Error: '' @ msg)), evs)
         | HttpOk data \<Rightarrow>
             (Inr \<lparr>prompt = trim (content data), model = mdl, usage = usage_of data\<rparr>, evs)))"

section \<open>The orchestrator (background.js)\<close>

text \<open>The settings read from \<^verbatim>\<open>chrome.storage.sync\<close>.\<close>

record settings =
  openaiApiKey :: string
  falApiKey :: string
  replicateApiKey :: string
  imageModel :: string
  llmModel :: string

text \<open>What the image providers answer during one Stage 2.\<close>

record network =
  fal_submitted :: "fal_data response"
  fal_statuses :: "nat \<Rightarrow> fal_data response"
  rep_submitted :: "rep_data response"
  rep_statuses :: "nat \<Rightarrow> rep_data response"

text \<open>
  Stage 2, as both entry points write it:
  \<^verbatim>\<open>if (settings.imageModel.startsWith('replicate'))
      imageResult = await getImageFromReplicate(prompt, settings.replicateApiKey, settings.imageModel);
  else
      imageResult = await getImageFromFal(prompt, settings.falApiKey, settings.imageModel);\<close>
\<close>

definition imageStage :: "settings \<Rightarrow> string \<Rightarrow> network \<Rightarrow> image_result outcome \<times> event list" where
  "imageStage st p net =
     (if startsWith (imageModel st) ''replicate'' then
        getImageFromReplicate p (replicateApiKey st) (imageModel st)
          (rep_submitted net) (rep_statuses net)
      else
        getImageFromFal p (falApiKey st) (imageModel st)
          (fal_submitted net) (fal_statuses net))"

text \<open>
  The module state of \<^verbatim>\<open>background.js\<close>, and the value stored under
  \<^verbatim>\<open>lastGeneratedPrompt\<close> in \<^verbatim>\<open>chrome.storage.local\<close>. (\<^verbatim>\<open>initWeave\<close> touches only the
  trace client's own flag and credentials, which no guard reads; it is kept as a
  suspension point.)
\<close>

record globals =
  isGenerating :: bool
  lastGeneratedPrompt :: string
  lastUpdateTime :: int
  storedPrompt :: string

text \<open>
  Both entry points are \<^verbatim>\<open>async\<close>: a routine runs until its next \<^verbatim>\<open>await\<close>, is suspended, and
  continues when the awaited promise settles; other routines run in between. A suspended
  routine is a task: the \<^verbatim>\<open>await\<close> it is waiting at, with the local variables it needs
  afterwards.

  \<^item> \<open>U0\<close> to \<open>U4\<close>: \<^verbatim>\<open>handleUpdateTexts\<close> waiting for \<^verbatim>\<open>initWeave()\<close>, the settings,
    \<^verbatim>\<open>weave.startTrace\<close>, \<^verbatim>\<open>generatePromptFromTexts\<close> (called with the previous prompt the
    task holds) and the image client (called with the prompt the task holds);
  \<^item> \<open>R0\<close> to \<open>R5\<close>: \<^verbatim>\<open>handleRegenerateImage\<close> waiting for \<^verbatim>\<open>initWeave()\<close>, the stored prompt,
    \<^verbatim>\<open>chrome.tabs.query\<close>, the settings, \<^verbatim>\<open>weave.startTrace\<close> and the image client.

  A reply is what the awaited promise settles with. The events of a client call are
  recorded when its promise settles.
\<close>

datatype reply =
    Resolved
  | Rejected thrown
  | Settings settings
  | Tabs "int list"
  | Completion "llm_data response"
  | Network network

datatype task =
    U0 "element list" "int option"
  | U1 "element list" "int option"
  | U2 "element list" "int option" settings
  | U3 "element list" "int option" settings string
  | U4 "element list" "int option" settings string
  | R0
  | R1
  | R2
  | R3 "int option"
  | R4 "int option" settings
  | R5 "int option" settings string

text \<open>
  A continuation step yields the new module state, the task the routine is suspended in
  next (\<open>None\<close> when the routine has returned) and the events of the step.
\<close>

type_synonym continuation = "globals \<times> task option \<times> event list"

text \<open>
  The early return of the credential checks:
  \<^verbatim>\<open>chrome.action.setBadgeText({ text: 'KEY' }); ...; isGenerating = false; return;\<close>
\<close>

definition missing_key :: "globals \<Rightarrow> continuation" where
  "missing_key g =
     (g\<lparr>isGenerating := False\<rparr>, None, [Badge ''KEY'', BadgeColor ''#F4B400''])"

text \<open>The outer \<^verbatim>\<open>catch\<close> and \<^verbatim>\<open>finally\<close>: the error badge, then \<^verbatim>\<open>isGenerating = false\<close>.\<close>

definition caught :: "globals \<Rightarrow> event list \<Rightarrow> continuation" where
  "caught g evs =
     (g\<lparr>isGenerating := False\<rparr>, None, evs @ [Badge ''ERR'', BadgeColor ''#DB4437''])"

text \<open>The inner \<^verbatim>\<open>catch\<close>: end the root span with the error, rethrow to the outer one.\<close>

definition innerError :: "globals \<Rightarrow> event list \<Rightarrow> thrown \<Rightarrow> continuation" where
  "innerError g evs e = caught g (evs @ [TraceEndError (toString e)])"

text \<open>\<^verbatim>\<open>if (tabId) chrome.tabs.sendMessage(tabId, {action: 'updateBackground', imageUrl, prompt, ...})\<close>\<close>

definition tab_message :: "int option \<Rightarrow> string \<Rightarrow> string \<Rightarrow> event list" where
  "tab_message tabId imageUrl p =
     (case tabId of
        None \<Rightarrow> []
      | Some t \<Rightarrow> if t \<noteq> 0 then [TabMessage t imageUrl p] else [])"

text \<open>
  The success path after Stage 2: the message to the page, the cleared badge, the detached
  tracing task, and \<^verbatim>\<open>finally\<close>.
\<close>

definition delivered ::
  "globals \<Rightarrow> event list \<Rightarrow> int option \<Rightarrow> image_result \<Rightarrow> string \<Rightarrow> continuation" where
  "delivered g evs tabId img p =
     (g\<lparr>isGenerating := False\<rparr>, None,
      evs @ tab_message tabId (url img) p @ [Badge [], BackgroundTrace (url img)])"

text \<open>
  \<^verbatim>\<open>const traceInputs = { elements: elementNames };
  if (lastGeneratedPrompt) traceInputs.previous_prompt = lastGeneratedPrompt;\<close>
\<close>

definition updateTraceInputs :: "element list \<Rightarrow> string \<Rightarrow> json" where
  "updateTraceInputs texts previous =
     JObj ((''elements'', JStr (join '', '' (map snd texts))) #
           (if previous \<noteq> [] then [(''previous_prompt'', JStr previous)] else []))"

text \<open>
  The guards of \<^verbatim>\<open>handleRegenerateImage\<close> and its acceptance:
  \<^verbatim>\<open>if (!lastGeneratedPrompt) return;  if (isGenerating) return;  isGenerating = true; ...\<close>
\<close>

definition regenerate_guards :: "globals \<Rightarrow> continuation" where
  "regenerate_guards g =
     (if lastGeneratedPrompt g = [] then (g, None, [ConsoleLog ''No prompt to regenerate''])
      else if isGenerating g then
        (g, None, [ConsoleLog ''Skipping regeneration: already generating''])
      else (g\<lparr>isGenerating := True\<rparr>, Some R2, [Badge ''...'', BadgeColor ''#4285F4'']))"

text \<open>
  One continuation step: \<open>resume now r t g\<close> continues task \<open>t\<close> with reply \<open>r\<close> in module
  state \<open>g\<close>, where \<open>now\<close> is what \<^verbatim>\<open>Date.now()\<close> returns during the step. A rejection
  before the outer \<^verbatim>\<open>try\<close> ends the routine; inside it, it reaches \<^verbatim>\<open>catch\<close> and \<^verbatim>\<open>finally\<close>.
  A reply of a kind the task does not wait for leaves it suspended.
\<close>

fun resume :: "int \<Rightarrow> reply \<Rightarrow> task \<Rightarrow> globals \<Rightarrow> continuation" where
  "resume now r (U0 texts tabId) g =
     (case r of
        Resolved \<Rightarrow>
          if now - lastUpdateTime g < 2000 then
            (g, None, [ConsoleLog ''Skipping update: too soon''])
          else if isGenerating g then
            (g, None, [ConsoleLog ''Skipping update: already generating''])
          else (g\<lparr>isGenerating := True, lastUpdateTime := now\<rparr>, Some (U1 texts tabId),
                [Badge ''...'', BadgeColor ''#4285F4''])
      | Rejected e \<Rightarrow> (g, None, [])
      | _ \<Rightarrow> (g, Some (U0 texts tabId), []))"
| "resume now r (U1 texts tabId) g =
     (case r of
        Settings st \<Rightarrow>
          if openaiApiKey st = [] then missing_key g
          else if startsWith (imageModel st) ''fal'' \<and> falApiKey st = [] then missing_key g
          else if startsWith (imageModel st) ''replicate'' \<and> replicateApiKey st = [] then
            missing_key g
          else (g, Some (U2 texts tabId st),
                [TraceStart ''generate_creative_image''
                   (sanitizeInputs (updateTraceInputs texts (lastGeneratedPrompt g)))])
      | Rejected e \<Rightarrow> caught g []
      | _ \<Rightarrow> (g, Some (U1 texts tabId), []))"
| "resume now r (U2 texts tabId st) g =
     (case r of
        Resolved \<Rightarrow> (g, Some (U3 texts tabId st (lastGeneratedPrompt g)), [])
      | Rejected e \<Rightarrow> caught g []
      | _ \<Rightarrow> (g, Some (U2 texts tabId st), []))"
| "resume now r (U3 texts tabId st previousPrompt) g =
     (case r of
        Completion replied \<Rightarrow>
          (case generatePromptFromTexts texts (openaiApiKey st) (llmModel st) previousPrompt
                  replied of
             (Inl e, evs) \<Rightarrow> innerError g evs e
           | (Inr llmResult, evs) \<Rightarrow>
               (g\<lparr>lastGeneratedPrompt := prompt llmResult, storedPrompt := prompt llmResult\<rparr>,
                Some (U4 texts tabId st (prompt llmResult)),
                evs @ [StorageSet (prompt llmResult)]))
      | Rejected e \<Rightarrow> innerError g [] e
      | _ \<Rightarrow> (g, Some (U3 texts tabId st previousPrompt), []))"
| "resume now r (U4 texts tabId st p) g =
     (case r of
        Network net \<Rightarrow>
          (case imageStage st p net of
             (Inl e, evs) \<Rightarrow> innerError g evs e
           | (Inr img, evs) \<Rightarrow> delivered g evs tabId img p)
      | Rejected e \<Rightarrow> innerError g [] e
      | _ \<Rightarrow> (g, Some (U4 texts tabId st p), []))"
| "resume now r R0 g =
     (case r of
        Resolved \<Rightarrow>
          if lastGeneratedPrompt g = [] then (g, Some R1, []) else regenerate_guards g
      | Rejected e \<Rightarrow> (g, None, [])
      | _ \<Rightarrow> (g, Some R0, []))"
| "resume now r R1 g =
     (case r of
        Resolved \<Rightarrow>
          regenerate_guards
            (if storedPrompt g \<noteq> [] then g\<lparr>lastGeneratedPrompt := storedPrompt g\<rparr> else g)
      | Rejected e \<Rightarrow> (g, None, [])
      | _ \<Rightarrow> (g, Some R1, []))"
| "resume now r R2 g =
     (case r of
        Tabs ts \<Rightarrow> (g, Some (R3 (case ts of [] \<Rightarrow> None | t # _ \<Rightarrow> Some t)), [])
      | Rejected e \<Rightarrow> caught g []
      | _ \<Rightarrow> (g, Some R2, []))"
| "resume now r (R3 tabId) g =
     (case r of
        Settings st \<Rightarrow>
          (g, Some (R4 tabId st),
           [TraceStart ''regenerate_image''
              (sanitizeInputs (JObj [(''prompt'', JStr (lastGeneratedPrompt g))]))])
      | Rejected e \<Rightarrow> caught g []
      | _ \<Rightarrow> (g, Some (R3 tabId), []))"
| "resume now r (R4 tabId st) g =
     (case r of
        Resolved \<Rightarrow> (g, Some (R5 tabId st (lastGeneratedPrompt g)), [])
      | Rejected e \<Rightarrow> caught g []
      | _ \<Rightarrow> (g, Some (R4 tabId st), []))"
| "resume now r (R5 tabId st p) g =
     (case r of
        Network net \<Rightarrow>
          (case imageStage st p net of
             (Inl e, evs) \<Rightarrow> innerError g evs e
           | (Inr img, evs) \<Rightarrow> delivered g evs tabId img (lastGeneratedPrompt g))
      | Rejected e \<Rightarrow> innerError g [] e
      | _ \<Rightarrow> (g, Some (R5 tabId st p), []))"

text \<open>
  A routine run on its own: its continuation steps in sequence, one per reply, until it
  returns. \<^verbatim>\<open>handleUpdateTexts\<close> starts in \<open>U0\<close>, \<^verbatim>\<open>handleRegenerateImage\<close> in \<open>R0\<close>.
\<close>

fun run_task :: "int \<Rightarrow> reply list \<Rightarrow> task \<Rightarrow> globals \<Rightarrow> continuation" where
  "run_task now [] t g = (g, Some t, [])"
| "run_task now (r # rs) t g =
     (case resume now r t g of
        (g', None, evs) \<Rightarrow> (g', None, evs)
      | (g', Some t', evs) \<Rightarrow>
          (case run_task now rs t' g' of (g'', t'', evs') \<Rightarrow> (g'', t'', evs @ evs')))"

definition handleUpdateTexts ::
  "element list \<Rightarrow> int option \<Rightarrow> int \<Rightarrow> reply list \<Rightarrow> globals \<Rightarrow> continuation" where
  "handleUpdateTexts texts tabId now replies g = run_task now replies (U0 texts tabId) g"

definition handleRegenerateImage :: "reply list \<Rightarrow> globals \<Rightarrow> continuation" where
  "handleRegenerateImage replies g = run_task 0 replies R0 g"

section \<open>The service worker: interleaved routines\<close>

text \<open>
  The service worker holds the module state, the suspended routines and the journal of
  events so far. A message starts a routine (\<open>UpdateTexts\<close>, \<open>RegenerateImage\<close>);
  \<open>Settle i now r\<close> settles the promise the \<open>i\<close>-th suspended routine waits for, at clock
  reading \<open>now\<close>, with reply \<open>r\<close>.
\<close>

record system =
  glob :: globals
  tasks :: "task list"
  journal :: "event list"

datatype action =
    UpdateTexts "element list" "int option"
  | RegenerateImage
  | Settle nat int reply

fun deliver :: "action \<Rightarrow> system \<Rightarrow> system" where
  "deliver (UpdateTexts texts tabId) s = s\<lparr>tasks := tasks s @ [U0 texts tabId]\<rparr>"
| "deliver RegenerateImage s = s\<lparr>tasks := tasks s @ [R0]\<rparr>"
| "deliver (Settle i now r) s =
     (if i < length (tasks s) then
        (case resume now r (tasks s ! i) (glob s) of
           (g, None, evs) \<Rightarrow>
             s\<lparr>glob := g, tasks := take i (tasks s) @ drop (Suc i) (tasks s),
               journal := journal s @ evs\<rparr>
         | (g, Some t, evs) \<Rightarrow>
             s\<lparr>glob := g, tasks := (tasks s)[i := t], journal := journal s @ evs\<rparr>)
      else s)"

fun run :: "action list \<Rightarrow> system \<Rightarrow> system" where
  "run [] s = s"
| "run (a # as) s = run as (deliver a s)"

text \<open>
  The state after the service worker starts: \<^verbatim>\<open>isGenerating = false\<close>,
  \<^verbatim>\<open>lastGeneratedPrompt = ''\<close>, \<^verbatim>\<open>lastUpdateTime = 0\<close>, and whatever prompt an earlier run stored.
\<close>

definition initial :: "string \<Rightarrow> system" where
  "initial stored =
     \<lparr>glob = \<lparr>isGenerating = False, lastGeneratedPrompt = [], lastUpdateTime = 0,
              storedPrompt = stored\<rparr>,
      tasks = [], journal = []\<rparr>"

text \<open>
  Fields at any nesting depth are addressed by paths: a property name steps into an
  object, an index into an array.
\<close>

datatype step = Key string | Idx nat

fun json_at :: "json \<Rightarrow> step list \<Rightarrow> json option" where
  "json_at v [] = Some v"
| "json_at (JObj kvs) (Key k # p) =
     (case map_of kvs k of None \<Rightarrow> None | Some w \<Rightarrow> json_at w p)"
| "json_at (JArr xs) (Idx i # p) =
     (if i < length xs then json_at (xs ! i) p else None)"
| "json_at _ _ = None"

text \<open>
  A path is clean when no property name on it is sensitive and none is \<^verbatim>\<open>__proto__\<close>.
\<close>

fun clean_path :: "step list \<Rightarrow> bool" where
  "clean_path [] = True"
| "clean_path (Key k # p) = (\<not> sensitive k \<and> k \<noteq> ''__proto__'' \<and> clean_path p)"
| "clean_path (Idx i # p) = clean_path p"

fun scalar :: "json \<Rightarrow> bool" where
  "scalar (JArr _) = False"
| "scalar (JObj _) = False"
| "scalar _ = True"

text \<open>A value mentions a sensitive name when some object inside it has such a property.\<close>

fun mentions_sensitive :: "json \<Rightarrow> bool" where
  "mentions_sensitive (JArr xs) = list_ex mentions_sensitive xs"
| "mentions_sensitive (JObj kvs) =
     list_ex (\<lambda>(key, v). sensitive key \<or> mentions_sensitive v) kvs"
| "mentions_sensitive _ = False"

text \<open>
  A value mentions \<^verbatim>\<open>__proto__\<close> when some object inside it has an own property of that
  name.
\<close>

fun mentions_proto :: "json \<Rightarrow> bool" where
  "mentions_proto (JArr xs) = list_ex mentions_proto xs"
| "mentions_proto (JObj kvs) =
     list_ex (\<lambda>(key, v). key = ''__proto__'' \<or> mentions_proto v) kvs"
| "mentions_proto _ = False"

section \<open>Notions used in the statements\<close>

subsection \<open>Polling\<close>

fun is_poll :: "event \<Rightarrow> bool" where
  "is_poll (Poll _ _) = True"
| "is_poll _ = False"

text \<open>
  A status answer is pending when the loop neither returns nor throws on it: the request
  succeeded and the status is none of the terminal ones the client tests for.
\<close>

definition fal_pending :: "fal_data response \<Rightarrow> bool" where
  "fal_pending r =
     (case r of HttpOk d \<Rightarrow> fal_status d \<noteq> ''COMPLETED'' \<and> fal_status d \<noteq> ''FAILED''
      | _ \<Rightarrow> False)"

definition rep_pending :: "rep_data response \<Rightarrow> bool" where
  "rep_pending r =
     (case r of HttpOk d \<Rightarrow> rep_status d \<noteq> ''succeeded'' \<and> rep_status d \<noteq> ''failed'' \<and>
                             rep_status d \<noteq> ''canceled''
      | _ \<Rightarrow> False)"

subsection \<open>The lock\<close>

text \<open>
  A routine holds the lock from the step that sets \<^verbatim>\<open>isGenerating = true\<close> until it
  returns: these are the tasks after acceptance. A generation is in flight when such a
  task exists.
\<close>

fun holder :: "task \<Rightarrow> bool" where
  "holder (U0 _ _) = False"
| "holder R0 = False"
| "holder R1 = False"
| "holder _ = True"

definition lock_inv :: "system \<Rightarrow> bool" where
  "lock_inv s =
     (if isGenerating (glob s) then length (filter holder (tasks s)) = 1
      else filter holder (tasks s) = [])"

text \<open>The flag reflects the state of one routine: it is set exactly when that routine holds it.\<close>

definition owns :: "task \<Rightarrow> globals \<Rightarrow> bool" where
  "owns t g = (isGenerating g = holder t)"

subsection \<open>Acceptance of a fresh generation\<close>

text \<open>
  An action accepts a generation when it continues a \<^verbatim>\<open>handleUpdateTexts\<close> routine past
  both guards. \<open>count_accepted\<close> counts the acceptances along a sequence of actions, and
  \<open>clock\<close> is the clock reading of an action.
\<close>

fun accepts :: "action \<Rightarrow> system \<Rightarrow> bool" where
  "accepts (Settle i now r) s =
     (i < length (tasks s) \<and>
      (case tasks s ! i of
         U0 texts tabId \<Rightarrow>
           fst (snd (resume now r (U0 texts tabId) (glob s))) = Some (U1 texts tabId)
       | _ \<Rightarrow> False))"
| "accepts _ s = False"

fun count_accepted :: "action list \<Rightarrow> system \<Rightarrow> nat" where
  "count_accepted [] s = 0"
| "count_accepted (a # as) s = (if accepts a s then 1 else 0) + count_accepted as (deliver a s)"

fun clock :: "action \<Rightarrow> int" where
  "clock (Settle i now r) = now"
| "clock _ = 0"

subsection \<open>Credentials and failures\<close>

text \<open>The three credential checks of \<^verbatim>\<open>handleUpdateTexts\<close>, as one condition.\<close>

definition missing_credential :: "settings \<Rightarrow> bool" where
  "missing_credential st =
     (openaiApiKey st = [] \<or>
      (startsWith (imageModel st) ''fal'' \<and> falApiKey st = []) \<or>
      (startsWith (imageModel st) ''replicate'' \<and> replicateApiKey st = []))"

text \<open>The replies with which the awaited prompt generation throws.\<close>

fun throws :: "reply \<Rightarrow> bool" where
  "throws (Rejected e) = True"
| "throws (Completion (NetworkError e)) = True"
| "throws (Completion (HttpError msg)) = True"
| "throws _ = False"

subsection \<open>Providers of network calls\<close>

fun event_provider :: "event \<Rightarrow> provider option" where
  "event_provider (Submit pr _ _) = Some pr"
| "event_provider (Poll pr _) = Some pr"
| "event_provider _ = None"

text \<open>Every network call among the events was issued by the client of provider \<open>pr\<close>.\<close>

definition only_provider :: "provider \<Rightarrow> event list \<Rightarrow> bool" where
  "only_provider pr evs = list_all (\<lambda>e. event_provider e = None \<or> event_provider e = Some pr) evs"

subsection \<open>The image type by the specification's order\<close>

text \<open>
  The resolution order of the specification, on the result URL: the mime subtype of an
  inline \<^verbatim>\<open>data:\<close> URI; else a mime hint declared by the response, which none of the
  response fields read by the clients carries; else the heuristic on the URL; else
  \<^verbatim>\<open>jpeg\<close> (the heuristic's own default).
\<close>

definition spec_imageType :: "string \<Rightarrow> string" where
  "spec_imageType u =
     (case match_data_uri u of
        Some (subtype, payload) \<Rightarrow> subtype
      | None \<Rightarrow> url_imageType u)"

subsection \<open>Sample values\<close>

definition st_demo :: settings where
  "st_demo = \<lparr>openaiApiKey = ''sk-1'', falApiKey = [], replicateApiKey = [],
              imageModel = ''fal-z-image-turbo'', llmModel = ''gpt-4o-mini''\<rparr>"

definition fire :: "element list" where
  "fire = [(''1'', ''Fire'')]"

definition fal_queued :: fal_data where
  "fal_queued = \<lparr>fal_status = ''IN_QUEUE'', fal_images = [], fal_request_id = ''r1'',
                 fal_error = [], fal_raw = []\<rparr>"

definition rep_starting :: rep_data where
  "rep_starting = \<lparr>rep_status = ''starting'', rep_output = NoOutput,
                   rep_get_url = ''https://api.replicate.com/v1/predictions/p1'',
                   rep_error = [], rep_raw = []\<rparr>"

definition st_unknown :: settings where
  "st_unknown = \<lparr>openaiApiKey = ''sk-1'', falApiKey = [], replicateApiKey = ''r8'',
                 imageModel = ''replicate-sdxl'', llmModel = ''gpt-4o-mini''\<rparr>"

definition fal_png :: fal_data where
  "fal_png = \<lparr>fal_status = [], fal_images = [FalImage ''https://fal.media/files/a.png'' []],
              fal_request_id = [], fal_error = [], fal_raw = []\<rparr>"

definition rep_inline :: rep_data where
  "rep_inline = \<lparr>rep_status = ''succeeded'',
                 rep_output = OutArr [''data:image/png;base64,iVBORw0KGgo='', ''x''],
                 rep_get_url = [], rep_error = [], rep_raw = []\<rparr>"

definition net_down :: network where
  "net_down = \<lparr>fal_submitted = NetworkError (TypeError ''Failed to fetch''),
               fal_statuses = (\<lambda>k. NetworkError (TypeError ''Failed to fetch'')),
               rep_submitted = NetworkError (TypeError ''Failed to fetch''),
               rep_statuses = (\<lambda>k. NetworkError (TypeError ''Failed to fetch''))\<rparr>"

definition net_image :: network where
  "net_image = net_down\<lparr>fal_submitted := HttpOk fal_png\<rparr>"

section \<open>Properties of the sanitizer\<close>

lemma sanitizeInputs_non_object: "\<not> typeof_object v \<Longrightarrow> sanitizeInputs v = v"
  by (cases v) simp_all

lemma sanitizeInputs_scalar: "scalar v \<Longrightarrow> sanitizeInputs v = v"
  by (cases v) simp_all

lemma map_of_sanitized:
  "map_of (map (\<lambda>(key, v). (key, f key v)) kvs) k = map_option (f k) (map_of kvs k)"
  by (induction kvs) auto

lemma map_of_created:
  "map_of (filter (\<lambda>(key, w). key \<noteq> n) kvs) k = (if k = n then None else map_of kvs k)"
  by (induction kvs) auto

lemma fst_sanitized:
  "map fst (filter (\<lambda>(key, w). key \<noteq> n) (map (\<lambda>(key, v). (key, f key v)) kvs)) =
   filter (\<lambda>key. key \<noteq> n) (map fst kvs)"
  by (induction kvs) auto

lemma json_at_sanitizeInputs:
  "json_at v p = Some x \<Longrightarrow> clean_path p \<Longrightarrow>
   json_at (sanitizeInputs v) p = Some (sanitizeInputs x)"
proof (induction p arbitrary: v)
  case Nil
  then show ?case by simp
next
  case (Cons s p)
  show ?case
  proof (cases s)
    case (Key k)
    with Cons.prems obtain kvs w where v: "v = JObj kvs" and w: "map_of kvs k = Some w"
      and x: "json_at w p = Some x"
      by (cases v) (auto split: option.splits)
    from Cons.prems Key have k: "\<not> sensitive k" "k \<noteq> ''__proto__''" and p: "clean_path p"
      by simp_all
    have "json_at (sanitizeInputs v) (s # p) = json_at (sanitizeInputs w) p"
      using v w k Key
      by (simp add: map_of_created map_of_sanitized sanitizeInputs_non_object)
    then show ?thesis using Cons.IH [OF x p] by simp
  next
    case (Idx i)
    with Cons.prems obtain xs where v: "v = JArr xs" and i: "i < length xs"
      and x: "json_at (xs ! i) p = Some x"
      by (cases v) (auto split: if_splits)
    from Cons.prems Idx have p: "clean_path p" by simp
    show ?thesis using v i Idx Cons.IH [OF x p] by simp
  qed
qed

lemma json_at_append:
  "json_at v (p @ q) = (case json_at v p of None \<Rightarrow> None | Some x \<Rightarrow> json_at x q)"
  by (induction v p rule: json_at.induct) (auto split: option.splits)

text \<open>
  A value in which no property name is sensitive and none is \<^verbatim>\<open>__proto__\<close> passes through
  the sanitizer unchanged.
\<close>

lemma sanitizeInputs_unaltered:
  "\<not> mentions_sensitive v \<Longrightarrow> \<not> mentions_proto v \<Longrightarrow> sanitizeInputs v = v"
proof (induction v rule: sanitizeInputs.induct)
  case (1 xs)
  then show ?case by (simp add: list_ex_iff map_idI)
next
  case (2 kvs)
  have same: "(case kv of (key, v) \<Rightarrow>
           (key, if sensitive key then REDACTED
                 else if typeof_object v then sanitizeInputs v else v)) = kv"
    if "kv \<in> set kvs" for kv
  proof (cases kv)
    case (Pair key v)
    from "2.prems" that Pair have ns: "\<not> sensitive key" and nm: "\<not> mentions_sensitive v"
      and np: "\<not> mentions_proto v"
      by (auto simp: list_ex_iff)
    have *: "typeof_object v \<longrightarrow> sanitizeInputs v = v"
      using "2.IH" [of "(key, v)" key v] that ns nm np unfolding Pair by simp
    show ?thesis unfolding Pair using ns * by auto
  qed
  have kept: "(case kv of (key, w) \<Rightarrow> key \<noteq> ''__proto__'')" if "kv \<in> set kvs" for kv
    using "2.prems"(2) that by (cases kv) (auto simp: list_ex_iff)
  have "map (\<lambda>(key, v). (key, if sensitive key then REDACTED
                 else if typeof_object v then sanitizeInputs v else v)) kvs = kvs"
    using same by (simp add: map_idI)
  moreover have "filter (\<lambda>(key, w). key \<noteq> ''__proto__'') kvs = kvs"
    using kept by (simp add: filter_id_conv)
  ultimately show ?case by simp
qed simp_all

text \<open>
  The sanitizer away from the property name \<^verbatim>\<open>__proto__\<close>: take any object, array or
  scalar \<open>x\<close> that sits in the input at a clean path \<open>p\<close> (any nesting depth). If \<open>x\<close> is an
  object, each of its fields with a sensitive name holds the fixed marker
  \<^verbatim>\<open>'[REDACTED]'\<close> in the output, each other field but \<^verbatim>\<open>__proto__\<close> holds the sanitized form
  of its value, the output has no field \<^verbatim>\<open>__proto__\<close> there, and the object keeps its other
  property names in order; if \<open>x\<close> is an array, the output holds the array of its
  sanitized elements; if \<open>x\<close> is a scalar, or a value in which no property name is
  sensitive or \<^verbatim>\<open>__proto__\<close>, the output holds \<open>x\<close> itself. (What lies below a redacted
  field is replaced together with that field.)
\<close>

lemma sanitizeInputs_redacts:
  assumes "json_at v p = Some x" and "clean_path p"
  shows "(\<forall>kvs k w. x = JObj kvs \<and> map_of kvs k = Some w \<and> k \<noteq> ''__proto__'' \<longrightarrow>
            json_at (sanitizeInputs v) (p @ [Key k]) =
              Some (if sensitive k then REDACTED else sanitizeInputs w))
       \<and> json_at (sanitizeInputs v) (p @ [Key ''__proto__'']) = None
       \<and> (\<forall>kvs. x = JObj kvs \<longrightarrow>
            (\<exists>kvs'. json_at (sanitizeInputs v) p = Some (JObj kvs') \<and>
                    map fst kvs' = filter (\<lambda>key. key \<noteq> ''__proto__'') (map fst kvs)))
       \<and> (\<forall>xs. x = JArr xs \<longrightarrow>
            json_at (sanitizeInputs v) p = Some (JArr (map sanitizeInputs xs)))
       \<and> (scalar x \<longrightarrow> json_at (sanitizeInputs v) p = Some x)
       \<and> (\<not> mentions_sensitive x \<and> \<not> mentions_proto x \<longrightarrow>
            json_at (sanitizeInputs v) p = Some x)"
proof -
  have at: "json_at (sanitizeInputs v) p = Some (sanitizeInputs x)"
    using assms by (rule json_at_sanitizeInputs)
  have field: "json_at (sanitizeInputs v) (p @ [Key k]) =
                 Some (if sensitive k then REDACTED else sanitizeInputs w)"
    if "x = JObj kvs" and "map_of kvs k = Some w" and "k \<noteq> ''__proto__''" for kvs k w
    using at that
    by (simp add: json_at_append map_of_created map_of_sanitized sanitizeInputs_non_object)
  have gone: "json_at (sanitizeInputs v) (p @ [Key ''__proto__'']) = None"
    using at by (cases x) (simp_all add: json_at_append map_of_created)
  have names: "\<exists>kvs'. json_at (sanitizeInputs v) p = Some (JObj kvs') \<and>
                       map fst kvs' = filter (\<lambda>key. key \<noteq> ''__proto__'') (map fst kvs)"
    if "x = JObj kvs" for kvs
    using at that by (simp add: fst_sanitized)
  have arr: "json_at (sanitizeInputs v) p = Some (JArr (map sanitizeInputs xs))"
    if "x = JArr xs" for xs
    using at that by simp
  have sc: "json_at (sanitizeInputs v) p = Some x" if "scalar x"
    using at that by (simp add: sanitizeInputs_scalar)
  have un: "json_at (sanitizeInputs v) p = Some x"
    if "\<not> mentions_sensitive x" and "\<not> mentions_proto x"
    using at that by (simp add: sanitizeInputs_unaltered)
  show ?thesis
  proof (intro conjI allI impI)
    fix kvs k w
    assume "x = JObj kvs \<and> map_of kvs k = Some w \<and> k \<noteq> ''__proto__''"
    then show "json_at (sanitizeInputs v) (p @ [Key k]) =
                 Some (if sensitive k then REDACTED else sanitizeInputs w)"
      using field by blast
  next
    show "json_at (sanitizeInputs v) (p @ [Key ''__proto__'']) = None" by (rule gone)
  next
    fix kvs assume "x = JObj kvs"
    then show "\<exists>kvs'. json_at (sanitizeInputs v) p = Some (JObj kvs') \<and>
                 map fst kvs' = filter (\<lambda>key. key \<noteq> ''__proto__'') (map fst kvs)"
      by (rule names)
  next
    fix xs assume "x = JArr xs"
    then show "json_at (sanitizeInputs v) p = Some (JArr (map sanitizeInputs xs))"
      by (rule arr)
  next
    assume "scalar x"
    then show "json_at (sanitizeInputs v) p = Some x" by (rule sc)
  next
    assume "\<not> mentions_sensitive x \<and> \<not> mentions_proto x"
    then show "json_at (sanitizeInputs v) p = Some x" using un by blast
  qed
qed

text \<open>
  An instance: in a chat-completion payload the field \<^verbatim>\<open>apiKey\<close> of a message is
  redacted and the field \<^verbatim>\<open>role\<close> beside it is kept.
\<close>

lemma sanitizeInputs_redacts_example:
  "json_at (sanitizeInputs
        (JObj [(''messages'', JArr [JObj [(''role'', JStr ''user''), (''apiKey'', JStr ''sk-1'')]]),
               (''model'', JStr ''gpt-4o-mini'')]))
     ([Key ''messages'', Idx 0] @ [Key ''apiKey'']) = Some (JStr ''[REDACTED]'')
   \<and> json_at (sanitizeInputs
        (JObj [(''messages'', JArr [JObj [(''role'', JStr ''user''), (''apiKey'', JStr ''sk-1'')]]),
               (''model'', JStr ''gpt-4o-mini'')]))
     ([Key ''messages'', Idx 0] @ [Key ''role'']) = Some (JStr ''user'')"
  using sanitizeInputs_redacts
    [of "JObj [(''messages'', JArr [JObj [(''role'', JStr ''user''), (''apiKey'', JStr ''sk-1'')]]),
               (''model'', JStr ''gpt-4o-mini'')]"
        "[Key ''messages'', Idx 0]"
        "JObj [(''role'', JStr ''user''), (''apiKey'', JStr ''sk-1'')]"]
  by (simp add: sensitive_def toLowerCase_def toLowerChar_def startsWith_def REDACTED_def)

text \<open>
  C7. The claim that the sanitizer leaves the value of every field without a sensitive
  name unaltered fails on the code for an own property named \<^verbatim>\<open>__proto__\<close>. On the input
  \<^verbatim>\<open>{"__proto__": {"a": 1}, "b": 2}\<close>, as \<^verbatim>\<open>JSON.parse\<close> yields it, the name \<^verbatim>\<open>__proto__\<close> is
  not sensitive and the input holds \<^verbatim>\<open>{"a": 1}\<close> under it, yet the output is the object
  \<^verbatim>\<open>{"b": 2}\<close>: it has no field \<^verbatim>\<open>__proto__\<close> at all. No name in this input is sensitive, so
  the claim promises the output to equal the input.
\<close>

theorem sanitizeInputs_drops_proto:
  "sanitizeInputs (JObj [(''__proto__'', JObj [(''a'', JNum 1)]), (''b'', JNum 2)])
     = JObj [(''b'', JNum 2)]
   \<and> \<not> sensitive ''__proto__''
   \<and> \<not> mentions_sensitive (JObj [(''__proto__'', JObj [(''a'', JNum 1)]), (''b'', JNum 2)])
   \<and> json_at (JObj [(''__proto__'', JObj [(''a'', JNum 1)]), (''b'', JNum 2)])
        [Key ''__proto__''] = Some (JObj [(''a'', JNum 1)])
   \<and> json_at (sanitizeInputs (JObj [(''__proto__'', JObj [(''a'', JNum 1)]), (''b'', JNum 2)]))
        [Key ''__proto__''] = None"
  by (simp add: sensitive_def toLowerCase_def toLowerChar_def startsWith_def)

section \<open>Polling to the attempt ceiling\<close>

lemma fal_poll_pending:
  assumes "\<forall>k. fal_pending (statuses k)"
  shows "20 - attempts = n \<Longrightarrow> attempts \<le> 20 \<Longrightarrow>
         fal_poll apiUrl requestId statuses attempts evs =
           (Inl (Error ''FAL Request Timed Out''),
            evs @ concat (replicate n
                    [Sleep 500, Poll FAL (apiUrl @ ''/requests/'' @ requestId)]))"
proof (induction n arbitrary: attempts evs)
  case 0
  then show ?case by (simp add: fal_poll.simps)
next
  case (Suc n)
  from assms [rule_format, of attempts] obtain d where d: "statuses attempts = HttpOk d"
    "fal_status d \<noteq> ''COMPLETED''" "fal_status d \<noteq> ''FAILED''"
    by (cases "statuses attempts") (auto simp: fal_pending_def)
  from Suc.prems have lt: "attempts < 20" and n: "20 - (attempts + 1) = n" by simp_all
  have "fal_poll apiUrl requestId statuses attempts evs =
        fal_poll apiUrl requestId statuses (attempts + 1)
          (evs @ [Sleep 500, Poll FAL (apiUrl @ ''/requests/'' @ requestId)])"
    using lt d by (subst fal_poll.simps) simp
  also have "\<dots> = (Inl (Error ''FAL Request Timed Out''),
      (evs @ [Sleep 500, Poll FAL (apiUrl @ ''/requests/'' @ requestId)]) @
      concat (replicate n [Sleep 500, Poll FAL (apiUrl @ ''/requests/'' @ requestId)]))"
    using lt by (intro Suc.IH [OF n]) simp
  finally show ?case by simp
qed

lemma replicate_poll_pending:
  assumes "\<forall>k. rep_pending (statuses k)"
  shows "40 - attempts = n \<Longrightarrow> attempts \<le> 40 \<Longrightarrow>
         replicate_poll getUrl statuses attempts evs =
           (Inl (Error ''Replicate Request Timed Out''),
            evs @ concat (replicate n [Sleep 500, Poll Replicate getUrl]))"
proof (induction n arbitrary: attempts evs)
  case 0
  then show ?case by (simp add: replicate_poll.simps)
next
  case (Suc n)
  from assms [rule_format, of attempts] obtain d where d: "statuses attempts = HttpOk d"
    "rep_status d \<noteq> ''succeeded''" "rep_status d \<noteq> ''failed''" "rep_status d \<noteq> ''canceled''"
    by (cases "statuses attempts") (auto simp: rep_pending_def)
  from Suc.prems have lt: "attempts < 40" and n: "40 - (attempts + 1) = n" by simp_all
  have "replicate_poll getUrl statuses attempts evs =
        replicate_poll getUrl statuses (attempts + 1) (evs @ [Sleep 500, Poll Replicate getUrl])"
    using lt d by (subst replicate_poll.simps) simp
  also have "\<dots> = (Inl (Error ''Replicate Request Timed Out''),
      (evs @ [Sleep 500, Poll Replicate getUrl]) @
      concat (replicate n [Sleep 500, Poll Replicate getUrl]))"
    using lt by (intro Suc.IH [OF n]) simp
  finally show ?case by simp
qed

lemma polls_of_rounds:
  "length (filter is_poll (concat (replicate n [Sleep ms, Poll pr u]))) = n"
  by (induction n) simp_all


text \<open>
  C5. Poll termination. Let the credential be present, the submit request succeed
  without a finished image but with something to poll (a request id for FAL, a status URL
  for Replicate, for a supported Replicate model), and let the status endpoint answer
  every poll with a pending status. Then the FAL client throws
  \<^verbatim>\<open>FAL Request Timed Out\<close> after the submit call and exactly 20 rounds, each a 500 ms
  delay followed by one status request, and the Replicate client throws
  \<^verbatim>\<open>Replicate Request Timed Out\<close> after exactly 40 such rounds.
\<close>

theorem poll_ceiling:
  assumes "apiKey \<noteq> []"
    and "fal_images fd = []" and "fal_request_id fd \<noteq> []" and "\<forall>k. fal_pending (fstatuses k)"
    and "replicate_endpoint rmodel = Some apiUrl"
    and "\<not> (rep_status rd = ''succeeded'' \<and> output_truthy (rep_output rd))"
    and "rep_get_url rd \<noteq> []" and "\<forall>k. rep_pending (rstatuses k)"
  shows "getImageFromFal p apiKey fmodel (HttpOk fd) fstatuses =
           (Inl (Error ''FAL Request Timed Out''),
            Submit FAL (''https://fal.run/'' @ fal_modelPath fmodel) p #
            concat (replicate 20
              [Sleep 500,
               Poll FAL ((''https://fal.run/'' @ fal_modelPath fmodel) @ ''/requests/'' @
                         fal_request_id fd)]))
       \<and> length (filter is_poll (snd (getImageFromFal p apiKey fmodel (HttpOk fd) fstatuses))) = 20
       \<and> getImageFromReplicate p apiKey rmodel (HttpOk rd) rstatuses =
           (Inl (Error ''Replicate Request Timed Out''),
            Submit Replicate apiUrl p #
            concat (replicate 40 [Sleep 500, Poll Replicate (rep_get_url rd)]))
       \<and> length (filter is_poll
            (snd (getImageFromReplicate p apiKey rmodel (HttpOk rd) rstatuses))) = 40"
proof -
  have fal: "getImageFromFal p apiKey fmodel (HttpOk fd) fstatuses =
           (Inl (Error ''FAL Request Timed Out''),
            Submit FAL (''https://fal.run/'' @ fal_modelPath fmodel) p #
            concat (replicate 20
              [Sleep 500,
               Poll FAL ((''https://fal.run/'' @ fal_modelPath fmodel) @ ''/requests/'' @
                         fal_request_id fd)]))"
    using assms(1-3) fal_poll_pending [OF assms(4), of 0 20]
    by (simp add: getImageFromFal_def Let_def)
  have rep: "getImageFromReplicate p apiKey rmodel (HttpOk rd) rstatuses =
           (Inl (Error ''Replicate Request Timed Out''),
            Submit Replicate apiUrl p #
            concat (replicate 40 [Sleep 500, Poll Replicate (rep_get_url rd)]))"
    using assms(1,5-7) replicate_poll_pending [OF assms(8), of 0 40]
    by (simp add: getImageFromReplicate_def rep_pending_def Let_def)
  show ?thesis
    by (simp only: fal rep snd_conv filter.simps is_poll.simps if_False polls_of_rounds)
qed

theorem poll_ceiling_witness:
  "fst (getImageFromFal ''a scene'' ''key'' ''fal-z-image-turbo'' (HttpOk fal_queued)
          (\<lambda>k. HttpOk fal_queued)) = Inl (Error ''FAL Request Timed Out'')
   \<and> length (filter is_poll (snd (getImageFromFal ''a scene'' ''key'' ''fal-z-image-turbo''
        (HttpOk fal_queued) (\<lambda>k. HttpOk fal_queued)))) = 20
   \<and> fst (getImageFromReplicate ''a scene'' ''key'' ''replicate-pruna-p-image''
          (HttpOk rep_starting) (\<lambda>k. HttpOk rep_starting)) = Inl (Error ''Replicate Request Timed Out'')
   \<and> length (filter is_poll (snd (getImageFromReplicate ''a scene'' ''key''
        ''replicate-pruna-p-image'' (HttpOk rep_starting) (\<lambda>k. HttpOk rep_starting)))) = 40"
proof -
  have k: "''key'' \<noteq> []" by simp
  have f1: "fal_images fal_queued = []" and f2: "fal_request_id fal_queued \<noteq> []"
    and f3: "\<forall>k. fal_pending ((\<lambda>k. HttpOk fal_queued) k)"
    by (simp_all add: fal_queued_def fal_pending_def)
  have r0: "replicate_endpoint ''replicate-pruna-p-image'' =
              Some ''https://api.replicate.com/v1/models/prunaai/p-image/predictions''"
    by (simp add: replicate_endpoint_def)
  have r1: "\<not> (rep_status rep_starting = ''succeeded'' \<and> output_truthy (rep_output rep_starting))"
    and r2: "rep_get_url rep_starting \<noteq> []"
    and r3: "\<forall>k. rep_pending ((\<lambda>k. HttpOk rep_starting) k)"
    by (simp_all add: rep_starting_def rep_pending_def)
  from poll_ceiling [OF k f1 f2 f3 r0 r1 r2 r3, of "''a scene''" "''fal-z-image-turbo''"]
  show ?thesis by (simp add: polls_of_rounds)
qed


section \<open>The generation lock\<close>

lemmas continuation_defs = missing_key_def caught_def innerError_def delivered_def
  regenerate_guards_def

lemma resume_holder_exit:
  "holder t \<Longrightarrow> resume now r t g = (g', None, evs) \<Longrightarrow> \<not> isGenerating g'"
  by (cases t; cases r)
     (auto simp: continuation_defs split: if_splits prod.splits sum.splits)

lemma resume_holder_continue:
  "holder t \<Longrightarrow> resume now r t g = (g', Some t', evs) \<Longrightarrow>
   holder t' \<and> isGenerating g' = isGenerating g"
  by (cases t; cases r)
     (auto simp: continuation_defs split: if_splits prod.splits sum.splits)

lemma resume_waiting_exit:
  "\<not> holder t \<Longrightarrow> resume now r t g = (g', None, evs) \<Longrightarrow> isGenerating g' = isGenerating g"
  by (cases t; cases r)
     (auto simp: continuation_defs split: if_splits prod.splits sum.splits)

lemma resume_waiting_continue:
  "\<not> holder t \<Longrightarrow> resume now r t g = (g', Some t', evs) \<Longrightarrow>
   (if holder t' then \<not> isGenerating g \<and> isGenerating g' else isGenerating g' = isGenerating g)"
  by (cases t; cases r)
     (auto simp: continuation_defs split: if_splits prod.splits sum.splits)


lemma holders_split:
  assumes "i < length ts"
  shows "filter holder ts =
         filter holder (take i ts) @ (if holder (ts ! i) then [ts ! i] else []) @
         filter holder (drop (Suc i) ts)"
proof -
  have "ts = take i ts @ ts ! i # drop (Suc i) ts"
    using assms by (rule id_take_nth_drop)
  then have "filter holder ts = filter holder (take i ts @ ts ! i # drop (Suc i) ts)"
    by simp
  then show ?thesis by simp
qed

lemma holders_update:
  assumes "i < length ts"
  shows "filter holder (ts[i := t]) =
         filter holder (take i ts) @ (if holder t then [t] else []) @
         filter holder (drop (Suc i) ts)"
  using assms by (simp add: upd_conv_take_nth_drop)

lemma lock_inv_settle:
  assumes inv: "lock_inv s" and i: "i < length (tasks s)"
  shows "lock_inv (deliver (Settle i now r) s)"
proof -
  let ?t = "tasks s ! i"
  obtain g' t' evs where res: "resume now r ?t (glob s) = (g', t', evs)"
    by (cases "resume now r ?t (glob s)")
  note split = holders_split [OF i]
  show ?thesis
  proof (cases "holder ?t")
    case True
    with inv split have gen: "isGenerating (glob s)"
      and rest: "filter holder (take i (tasks s)) = []" "filter holder (drop (Suc i) (tasks s)) = []"
      by (auto simp: lock_inv_def split: if_splits)
    show ?thesis
    proof (cases t')
      case None
      with res True have "\<not> isGenerating g'" by (auto dest: resume_holder_exit)
      with res None i rest show ?thesis by (simp add: lock_inv_def)
    next
      case (Some t'')
      with res True have "holder t''" "isGenerating g' = isGenerating (glob s)"
        by (auto dest: resume_holder_continue)
      with res Some i rest gen show ?thesis by (simp add: lock_inv_def holders_update)
    qed
  next
    case False
    with split have same: "filter holder (tasks s) =
        filter holder (take i (tasks s)) @ filter holder (drop (Suc i) (tasks s))" by simp
    note inv' = inv [unfolded lock_inv_def same]
    show ?thesis
    proof (cases t')
      case None
      with res False have "isGenerating g' = isGenerating (glob s)"
        by (auto dest: resume_waiting_exit)
      with res None i inv' show ?thesis by (auto simp: lock_inv_def split: if_splits)
    next
      case (Some t'')
      from resume_waiting_continue [OF False _] res Some
      have c: "if holder t'' then \<not> isGenerating (glob s) \<and> isGenerating g'
               else isGenerating g' = isGenerating (glob s)" by blast
      show ?thesis
      proof (cases "holder t''")
        case True
        with c have "\<not> isGenerating (glob s)" "isGenerating g'" by simp_all
        with inv' have "filter holder (take i (tasks s)) = []"
          "filter holder (drop (Suc i) (tasks s)) = []" by (auto split: if_splits)
        with res Some i True \<open>isGenerating g'\<close> show ?thesis
          by (simp add: lock_inv_def holders_update)
      next
        case False
        with c have "isGenerating g' = isGenerating (glob s)" by simp
        with res Some i False inv' show ?thesis
          by (auto simp: lock_inv_def holders_update split: if_splits)
      qed
    qed
  qed
qed

lemma lock_inv_deliver: "lock_inv s \<Longrightarrow> lock_inv (deliver a s)"
proof (cases a)
  case (Settle i now r)
  assume "lock_inv s"
  then show ?thesis using Settle lock_inv_settle [of s i now r]
    by (cases "i < length (tasks s)") simp_all
qed (simp_all add: lock_inv_def)

lemma lock_inv_run: "lock_inv s \<Longrightarrow> lock_inv (run acts s)"
  by (induction acts arbitrary: s) (simp_all add: lock_inv_deliver)

lemma lock_inv_initial: "lock_inv (initial stored)"
  by (simp add: lock_inv_def initial_def)


lemma deliver_exit_unlocks:
  assumes "i < length (tasks s)" and "holder (tasks s ! i)"
    and "length (tasks (deliver (Settle i now r) s)) < length (tasks s)"
  shows "\<not> isGenerating (glob (deliver (Settle i now r) s))"
proof -
  obtain g' t' evs where res: "resume now r (tasks s ! i) (glob s) = (g', t', evs)"
    by (cases "resume now r (tasks s ! i) (glob s)")
  show ?thesis
  proof (cases t')
    case None
    with res assms(2) have "\<not> isGenerating g'" by (auto dest: resume_holder_exit)
    with res None assms(1) show ?thesis by simp
  next
    case (Some t'')
    with res assms(1,3) show ?thesis by simp
  qed
qed

text \<open>A routine run on its own from an unlocked state leaves the lock released when it returns.\<close>

lemma run_task_lock:
  "owns t g \<Longrightarrow> run_task now rs t g = (g', t', evs) \<Longrightarrow>
   (case t' of None \<Rightarrow> \<not> isGenerating g' | Some t'' \<Rightarrow> owns t'' g')"
proof (induction rs arbitrary: t g evs)
  case Nil
  then show ?case by auto
next
  case (Cons r rs)
  obtain g1 t1 evs1 where step: "resume now r t g = (g1, t1, evs1)"
    by (cases "resume now r t g")
  show ?case
  proof (cases t1)
    case None
    with step Cons.prems(2) have g': "g' = g1" "t' = None" by simp_all
    from step None Cons.prems(1) have "\<not> isGenerating g1"
      using resume_holder_exit [of t now r g g1 evs1] resume_waiting_exit [of t now r g g1 evs1]
      by (cases "holder t") (auto simp: owns_def)
    with g' show ?thesis by simp
  next
    case (Some t2)
    from step Some Cons.prems(1) have own: "owns t2 g1"
      using resume_holder_continue [of t now r g g1 t2 evs1]
        resume_waiting_continue [of t now r g g1 t2 evs1]
      by (cases "holder t") (auto simp: owns_def split: if_splits)
    from step Some Cons.prems(2) obtain evs2 where rest: "run_task now rs t2 g1 = (g', t', evs2)"
      by (auto split: prod.splits)
    from Cons.IH [OF own rest] show ?thesis .
  qed
qed

lemma handleUpdateTexts_returns_unlocked:
  "\<not> isGenerating g \<Longrightarrow> handleUpdateTexts texts tabId now rs g = (g', None, evs) \<Longrightarrow>
   \<not> isGenerating g'"
  using run_task_lock [of "U0 texts tabId" g now rs g' None evs]
  by (simp add: handleUpdateTexts_def owns_def)

lemma handleRegenerateImage_returns_unlocked:
  "\<not> isGenerating g \<Longrightarrow> handleRegenerateImage rs g = (g', None, evs) \<Longrightarrow>
   \<not> isGenerating g'"
  using run_task_lock [of R0 g 0 rs g' None evs]
  by (simp add: handleRegenerateImage_def owns_def)


text \<open>
  C1. The generation lock, in every state the service worker can reach from its start by
  any interleaving of messages and settled promises, and for any next action:
  \<^item> \<^verbatim>\<open>isGenerating\<close> is true exactly when one accepted routine has not returned yet, and
    no two are ever in flight;
  \<^item> when the action turns \<^verbatim>\<open>isGenerating\<close> from false to true, no generation was in flight
    before it and exactly one is after it;
  \<^item> when the action makes a routine that holds the lock return, on whatever path (success,
    missing credential, rejected promise, thrown error), \<^verbatim>\<open>isGenerating\<close> is false after it.

  And for either entry point run on its own from a state with \<^verbatim>\<open>isGenerating\<close> false, with
  any replies: when the routine has returned, \<^verbatim>\<open>isGenerating\<close> is false.
\<close>

theorem isGenerating_lock:
  "lock_inv (run acts (initial stored))
   \<and> (\<not> isGenerating (glob (run acts (initial stored))) \<and>
      isGenerating (glob (deliver a (run acts (initial stored)))) \<longrightarrow>
        filter holder (tasks (run acts (initial stored))) = [] \<and>
        length (filter holder (tasks (deliver a (run acts (initial stored))))) = 1)
   \<and> (\<forall>i now r. a = Settle i now r \<and> i < length (tasks (run acts (initial stored))) \<and>
        holder (tasks (run acts (initial stored)) ! i) \<and>
        length (tasks (deliver a (run acts (initial stored))))
          < length (tasks (run acts (initial stored))) \<longrightarrow>
        \<not> isGenerating (glob (deliver a (run acts (initial stored)))))
   \<and> (\<forall>texts tabId now rs g g' evs.
        \<not> isGenerating g \<and> handleUpdateTexts texts tabId now rs g = (g', None, evs) \<longrightarrow>
        \<not> isGenerating g')
   \<and> (\<forall>rs g g' evs.
        \<not> isGenerating g \<and> handleRegenerateImage rs g = (g', None, evs) \<longrightarrow>
        \<not> isGenerating g')"
proof (intro conjI allI impI)
  let ?s = "run acts (initial stored)"
  show inv: "lock_inv ?s" by (simp add: lock_inv_run lock_inv_initial)
  then have inv': "lock_inv (deliver a ?s)" by (rule lock_inv_deliver)
  {
    assume "\<not> isGenerating (glob ?s) \<and> isGenerating (glob (deliver a ?s))"
    with inv inv' show "filter holder (tasks ?s) = []"
      and "length (filter holder (tasks (deliver a ?s))) = 1"
      by (simp_all add: lock_inv_def)
  }
  {
    fix i now r
    assume "a = Settle i now r \<and> i < length (tasks ?s) \<and> holder (tasks ?s ! i) \<and>
            length (tasks (deliver a ?s)) < length (tasks ?s)"
    then show "\<not> isGenerating (glob (deliver a ?s))"
      using deliver_exit_unlocks [of i ?s now r] by blast
  }
  {
    fix texts tabId now rs g g' evs
    assume "\<not> isGenerating g \<and> handleUpdateTexts texts tabId now rs g = (g', None, evs)"
    then show "\<not> isGenerating g'"
      using handleUpdateTexts_returns_unlocked [of g texts tabId now rs g' evs] by blast
  }
  {
    fix rs g g' evs
    assume "\<not> isGenerating g \<and> handleRegenerateImage rs g = (g', None, evs)"
    then show "\<not> isGenerating g'"
      using handleRegenerateImage_returns_unlocked [of g rs g' evs] by blast
  }
qed

theorem isGenerating_lock_witness:
  "isGenerating (glob (run [UpdateTexts [(''1'', ''Fire'')] (Some 7), Settle 0 5000 Resolved]
                    (initial [])))
   \<and> \<not> isGenerating (glob (deliver (Settle 0 5001 (Settings st_demo))
        (run [UpdateTexts [(''1'', ''Fire'')] (Some 7), Settle 0 5000 Resolved] (initial []))))
   \<and> \<not> isGenerating (glob (run [UpdateTexts [(''1'', ''Fire'')] (Some 7)] (initial [])))
   \<and> length (filter holder (tasks (deliver (Settle 0 5000 Resolved)
        (run [UpdateTexts [(''1'', ''Fire'')] (Some 7)] (initial []))))) = 1"
proof -
  let ?acts = "[UpdateTexts [(''1'', ''Fire'')] (Some 7), Settle 0 5000 Resolved]"
  let ?s = "run ?acts (initial [])"
  let ?fresh = "run [UpdateTexts [(''1'', ''Fire'')] (Some 7)] (initial [])"
  have held: "isGenerating (glob ?s)" by (simp add: initial_def)
  have free: "\<not> isGenerating (glob ?fresh)" by (simp add: initial_def)
  have step: "isGenerating (glob (deliver (Settle 0 5000 Resolved) ?fresh))"
    by (simp add: initial_def)
  have exits: "Settle 0 5001 (Settings st_demo) = Settle 0 5001 (Settings st_demo) \<and>
      0 < length (tasks ?s) \<and> holder (tasks ?s ! 0) \<and>
      length (tasks (deliver (Settle 0 5001 (Settings st_demo)) ?s)) < length (tasks ?s)"
    by (simp add: initial_def st_demo_def startsWith_def missing_key_def)
  note release = isGenerating_lock [of ?acts "[]" "Settle 0 5001 (Settings st_demo)",
      THEN conjunct2, THEN conjunct2, THEN conjunct1, rule_format, OF exits]
  note acquire = isGenerating_lock [of "[UpdateTexts [(''1'', ''Fire'')] (Some 7)]" "[]"
      "Settle 0 5000 Resolved", THEN conjunct2, THEN conjunct1, rule_format,
      OF conjI [OF free step], THEN conjunct2]
  show ?thesis using held release free acquire by (intro conjI)
qed


section \<open>The debounce window\<close>

lemma accepts_iff:
  "accepts (Settle i now r) s \<longleftrightarrow>
     i < length (tasks s) \<and> (\<exists>texts tabId. tasks s ! i = U0 texts tabId) \<and> r = Resolved \<and>
     \<not> now - lastUpdateTime (glob s) < 2000 \<and> \<not> isGenerating (glob s)"
  by (cases "tasks s ! i"; cases r) (auto split: if_splits)

lemma resume_lastUpdateTime:
  "resume now r t g = (g', t', evs) \<Longrightarrow>
   lastUpdateTime g' =
     (if (\<exists>texts tabId. t = U0 texts tabId \<and> t' = Some (U1 texts tabId)) then now
      else lastUpdateTime g)"
  by (cases t; cases r)
     (auto simp: continuation_defs split: if_splits prod.splits sum.splits)

lemma lastUpdateTime_deliver:
  "lastUpdateTime (glob (deliver a s)) = (if accepts a s then clock a else lastUpdateTime (glob s))"
proof (cases a)
  case (Settle i now r)
  show ?thesis
  proof (cases "i < length (tasks s)")
    case True
    obtain g' t' evs where res: "resume now r (tasks s ! i) (glob s) = (g', t', evs)"
      by (cases "resume now r (tasks s ! i) (glob s)")
    from resume_lastUpdateTime [OF res]
    have "lastUpdateTime g' = (if accepts a s then now else lastUpdateTime (glob s))"
      using Settle True res by (cases "tasks s ! i") (auto split: if_splits)
    then show ?thesis using Settle True res by (cases t') simp_all
  next
    case False
    then show ?thesis using Settle by simp
  qed
qed simp_all

lemma lastUpdateTime_run:
  "count_accepted mid s = 0 \<Longrightarrow> lastUpdateTime (glob (run mid s)) = lastUpdateTime (glob s)"
proof (induction mid arbitrary: s)
  case Nil
  then show ?case by simp
next
  case (Cons a mid)
  from Cons.prems have na: "\<not> accepts a s" and rest: "count_accepted mid (deliver a s) = 0"
    by (simp_all split: if_splits)
  from Cons.IH [OF rest] na show ?case by (simp add: lastUpdateTime_deliver)
qed

lemma count_accepted_append:
  "count_accepted (xs @ ys) s = count_accepted xs s + count_accepted ys (run xs s)"
  by (induction xs arbitrary: s) simp_all

text \<open>
  C2, as amended. Take two continuations of \<^verbatim>\<open>handleUpdateTexts\<close> past \<^verbatim>\<open>initWeave()\<close>, at
  clock readings \<open>t1\<close> and \<open>t2\<close> with \<open>t2 - t1 < 2000\<close>, and any actions in between of which
  none accepts a generation. Then at most one of the two triggers is accepted; when the
  first is accepted, the second is not, so exactly one is. The debounce guard is the first
  test of the routine: whenever \<open>now - lastUpdateTime < 2000\<close> the trigger is dropped with
  the console line \<^verbatim>\<open>too soon\<close> and nothing else, whatever \<^verbatim>\<open>isGenerating\<close> is; and
  \<^verbatim>\<open>lastUpdateTime\<close> changes only when a generation is accepted, to the clock reading of
  that acceptance.
\<close>

theorem debounce_window:
  assumes "count_accepted mid (deliver (Settle i t1 r1) s) = 0" and "t2 - t1 < 2000"
  shows "count_accepted (Settle i t1 r1 # mid @ [Settle j t2 r2]) s \<le> 1
       \<and> (accepts (Settle i t1 r1) s \<longrightarrow>
            \<not> accepts (Settle j t2 r2) (run mid (deliver (Settle i t1 r1) s)) \<and>
            count_accepted (Settle i t1 r1 # mid @ [Settle j t2 r2]) s = 1)
       \<and> (\<forall>now g texts tabId. now - lastUpdateTime g < 2000 \<longrightarrow>
            resume now Resolved (U0 texts tabId) g =
              (g, None, [ConsoleLog ''Skipping update: too soon'']))
       \<and> (\<forall>a s'. lastUpdateTime (glob (deliver a s')) =
                   (if accepts a s' then clock a else lastUpdateTime (glob s')))"
proof -
  let ?a1 = "Settle i t1 r1" and ?a2 = "Settle j t2 r2"
  let ?s2 = "run mid (deliver ?a1 s)"
  have total: "count_accepted (?a1 # mid @ [?a2]) s =
        (if accepts ?a1 s then 1 else 0) + (if accepts ?a2 ?s2 then 1 else 0)"
    using assms(1) by (simp add: count_accepted_append)
  have second: "\<not> accepts ?a2 ?s2" if "accepts ?a1 s"
  proof -
    have "lastUpdateTime (glob ?s2) = lastUpdateTime (glob (deliver ?a1 s))"
      using assms(1) by (rule lastUpdateTime_run)
    also have "\<dots> = t1" using that by (simp only: lastUpdateTime_deliver clock.simps if_True)
    finally have "t2 - lastUpdateTime (glob ?s2) < 2000" using assms(2) by (simp only:)
    then show ?thesis by (simp only: accepts_iff) blast
  qed
  have most: "count_accepted (?a1 # mid @ [?a2]) s \<le> 1"
    using total second by (cases "accepts ?a1 s") simp_all
  have one: "count_accepted (?a1 # mid @ [?a2]) s = 1" if "accepts ?a1 s"
    using total second that by simp
  have guard: "resume now Resolved (U0 texts tabId) g =
      (g, None, [ConsoleLog ''Skipping update: too soon''])"
    if "now - lastUpdateTime g < 2000" for now g texts tabId
    using that by simp
  show ?thesis using most second one guard lastUpdateTime_deliver by blast
qed

theorem debounce_window_witness:
  "accepts (Settle 0 5000 Resolved) (run [UpdateTexts fire (Some 7), UpdateTexts fire (Some 7)] (initial []))
   \<and> \<not> isGenerating (glob (run [Settle 0 5001 (Settings st_demo)]
          (deliver (Settle 0 5000 Resolved)
             (run [UpdateTexts fire (Some 7), UpdateTexts fire (Some 7)] (initial [])))))
   \<and> \<not> accepts (Settle 0 6999 Resolved)
        (run [Settle 0 5001 (Settings st_demo)]
          (deliver (Settle 0 5000 Resolved)
             (run [UpdateTexts fire (Some 7), UpdateTexts fire (Some 7)] (initial []))))
   \<and> count_accepted (Settle 0 5000 Resolved # [Settle 0 5001 (Settings st_demo)] @
                       [Settle 0 6999 Resolved])
        (run [UpdateTexts fire (Some 7), UpdateTexts fire (Some 7)] (initial [])) = 1"
  using debounce_window [of "[Settle 0 5001 (Settings st_demo)]" 0 5000 Resolved
          "run [UpdateTexts fire (Some 7), UpdateTexts fire (Some 7)] (initial [])" 6999 0 Resolved]
  by (simp add: initial_def st_demo_def startsWith_def missing_key_def fire_def)

text \<open>
  C2 as stated fails: two triggers 100 ms apart, both within 2000 ms of the generation
  accepted at 10000 and with no accepted trigger between them, and neither is accepted.
\<close>

theorem debounce_pair_both_rejected:
  "count_accepted [Settle 1 10100 Resolved, Settle 1 10200 Resolved]
     (run [UpdateTexts fire (Some 7), Settle 0 10000 Resolved,
           UpdateTexts fire (Some 7), UpdateTexts fire (Some 7)] (initial [])) = 0"
  by (simp add: initial_def fire_def)


section \<open>A fresh generation, step by step\<close>

lemma run_task_continue:
  "resume now r t g = (g', Some t', evs) \<Longrightarrow> run_task now rs t' g' = (g'', t'', evs') \<Longrightarrow>
   run_task now (r # rs) t g = (g'', t'', evs @ evs')"
  by simp

lemma run_task_exit:
  "resume now r t g = (g', None, evs) \<Longrightarrow> run_task now (r # rs) t g = (g', None, evs)"
  by simp

lemma update_accepted:
  "\<not> now - lastUpdateTime g < 2000 \<Longrightarrow> \<not> isGenerating g \<Longrightarrow>
   resume now Resolved (U0 texts tabId) g =
     (g\<lparr>isGenerating := True, lastUpdateTime := now\<rparr>, Some (U1 texts tabId),
      [Badge ''...'', BadgeColor ''#4285F4''])"
  by simp

lemma update_gate_passed:
  "\<not> missing_credential st \<Longrightarrow>
   resume now (Settings st) (U1 texts tabId) g =
     (g, Some (U2 texts tabId st),
      [TraceStart ''generate_creative_image''
         (sanitizeInputs (updateTraceInputs texts (lastGeneratedPrompt g)))])"
  by (auto simp: missing_credential_def)

lemma update_gate_closed:
  "missing_credential st \<Longrightarrow>
   resume now (Settings st) (U1 texts tabId) g =
     (g\<lparr>isGenerating := False\<rparr>, None, [Badge ''KEY'', BadgeColor ''#F4B400''])"
  by (auto simp: missing_credential_def missing_key_def)

lemma update_trace_started:
  "resume now Resolved (U2 texts tabId st) g =
     (g, Some (U3 texts tabId st (lastGeneratedPrompt g)), [])"
  by simp

lemma update_prompt_generated:
  "openaiApiKey st \<noteq> [] \<Longrightarrow>
   resume now (Completion (HttpOk d)) (U3 texts tabId st previousPrompt) g =
     (g\<lparr>lastGeneratedPrompt := trim (content d), storedPrompt := trim (content d)\<rparr>,
      Some (U4 texts tabId st (trim (content d))),
      [LLMFetch (openaiApiKey st) (llmModel st) (userPrompt texts previousPrompt),
       StorageSet (trim (content d))])"
  by (simp add: generatePromptFromTexts_def)

lemma update_prompt_failed:
  assumes "throws r" and "openaiApiKey st \<noteq> []"
  shows "\<exists>evs. resume now r (U3 texts tabId st previousPrompt) g =
           (g\<lparr>isGenerating := False\<rparr>, None, evs @ [Badge ''ERR'', BadgeColor ''#DB4437'']) \<and>
         (\<forall>p. StorageSet p \<notin> set evs)"
proof (cases r)
  case (Rejected e)
  then show ?thesis by (simp add: innerError_def caught_def)
next
  case (Completion c)
  with assms show ?thesis
    by (cases c) (simp_all add: innerError_def caught_def generatePromptFromTexts_def)
qed (use assms in simp_all)

text \<open>
  The steps of a fresh generation up to the call of the prompt generator, composed: the
  routine is suspended in \<open>U3\<close> with the previous prompt it passed.
\<close>

lemma update_reaches_stage1:
  assumes "\<not> now - lastUpdateTime g < 2000" and "\<not> isGenerating g"
    and "\<not> missing_credential st"
    and "run_task now rs (U3 texts tabId st (lastGeneratedPrompt g))
           (g\<lparr>isGenerating := True, lastUpdateTime := now\<rparr>) = (g', t', evs)"
  shows "handleUpdateTexts texts tabId now (Resolved # Settings st # Resolved # rs) g =
           (g', t',
            [Badge ''...'', BadgeColor ''#4285F4'',
             TraceStart ''generate_creative_image''
               (sanitizeInputs (updateTraceInputs texts (lastGeneratedPrompt g)))] @ evs)"
proof -
  let ?g1 = "g\<lparr>isGenerating := True, lastUpdateTime := now\<rparr>"
  have "resume now Resolved (U2 texts tabId st) ?g1 =
          (?g1, Some (U3 texts tabId st (lastGeneratedPrompt g)), [])"
    by simp
  note run_task_continue [OF this assms(4)]
  note run_task_continue [OF update_gate_passed [OF assms(3)] this]
  note run_task_continue [OF update_accepted [OF assms(1,2)] this]
  then show ?thesis by (simp add: handleUpdateTexts_def)
qed

text \<open>
  C4. Narrative continuity. When a trigger passes the guards with \<^verbatim>\<open>lastGeneratedPrompt = P\<close>
  and the credentials are present, the prompt generator is called with previous prompt
  \<open>P\<close> (its request carries \<open>userPrompt texts P\<close>). When it answers with a completion, the
  trimmed text becomes \<^verbatim>\<open>lastGeneratedPrompt\<close> and is written to the durable store, and only
  then does Stage 2 run: it starts from that state, with the new prompt, and its events
  follow the \<open>StorageSet\<close> event.
\<close>

theorem narrative_continuity:
  assumes "\<not> now - lastUpdateTime g < 2000" and "\<not> isGenerating g"
    and "\<not> missing_credential st"
  shows "handleUpdateTexts texts tabId now
           (Resolved # Settings st # Resolved # Completion (HttpOk d) # rs) g =
         (case run_task now rs (U4 texts tabId st (trim (content d)))
                 (g\<lparr>isGenerating := True, lastUpdateTime := now,
                    lastGeneratedPrompt := trim (content d),
                    storedPrompt := trim (content d)\<rparr>) of
            (g', t', evs) \<Rightarrow>
              (g', t',
               [Badge ''...'', BadgeColor ''#4285F4'',
                TraceStart ''generate_creative_image''
                  (sanitizeInputs (updateTraceInputs texts (lastGeneratedPrompt g))),
                LLMFetch (openaiApiKey st) (llmModel st)
                  (userPrompt texts (lastGeneratedPrompt g)),
                StorageSet (trim (content d))] @ evs))"
proof -
  let ?g1 = "g\<lparr>isGenerating := True, lastUpdateTime := now\<rparr>"
  let ?p = "trim (content d)"
  let ?g4 = "?g1\<lparr>lastGeneratedPrompt := ?p, storedPrompt := ?p\<rparr>"
  obtain g' t' evs where stage2: "run_task now rs (U4 texts tabId st ?p) ?g4 = (g', t', evs)"
    by (cases "run_task now rs (U4 texts tabId st ?p) ?g4")
  from assms(3) have key: "openaiApiKey st \<noteq> []" by (simp add: missing_credential_def)
  have "run_task now (Completion (HttpOk d) # rs) (U3 texts tabId st (lastGeneratedPrompt g)) ?g1 =
          (g', t',
           [LLMFetch (openaiApiKey st) (llmModel st) (userPrompt texts (lastGeneratedPrompt g)),
            StorageSet ?p] @ evs)"
    by (rule run_task_continue [OF update_prompt_generated [OF key] stage2])
  from update_reaches_stage1 [OF assms this] stage2 show ?thesis by simp
qed

theorem narrative_continuity_witness:
  "handleUpdateTexts fire (Some 7) 5000
     [Resolved, Settings (st_demo\<lparr>falApiKey := ''fk''\<rparr>), Resolved,
      Completion (HttpOk (Completion_data '' Steam rises. '' None))]
     \<lparr>isGenerating = False, lastGeneratedPrompt = ''A fire burns.'', lastUpdateTime = 0,
      storedPrompt = ''A fire burns.''\<rparr> =
   (\<lparr>isGenerating = True, lastGeneratedPrompt = ''Steam rises.'', lastUpdateTime = 5000,
     storedPrompt = ''Steam rises.''\<rparr>,
    Some (U4 fire (Some 7) (st_demo\<lparr>falApiKey := ''fk''\<rparr>) ''Steam rises.''),
    [Badge ''...'', BadgeColor ''#4285F4'',
     TraceStart ''generate_creative_image''
       (JObj [(''elements'', JStr ''Fire''), (''previous_prompt'', JStr ''A fire burns.'')]),
     LLMFetch ''sk-1'' ''gpt-4o-mini'' (userPrompt fire ''A fire burns.''),
     StorageSet ''Steam rises.''])"
  using narrative_continuity [of 5000
          "\<lparr>isGenerating = False, lastGeneratedPrompt = ''A fire burns.'', lastUpdateTime = 0,
            storedPrompt = ''A fire burns.''\<rparr>"
          "st_demo\<lparr>falApiKey := ''fk''\<rparr>" fire "Some 7"
          "Completion_data '' Steam rises. '' None" "[]"]
  by (simp add: st_demo_def fire_def missing_credential_def startsWith_def trim_def
        whitespace_def updateTraceInputs_def sensitive_def toLowerCase_def toLowerChar_def)

text \<open>
  C8. Lock release on failure. When a trigger passes the guards and the credential checks
  and the awaited prompt generation throws, the routine returns with \<^verbatim>\<open>isGenerating\<close> false,
  with \<^verbatim>\<open>lastGeneratedPrompt\<close> and the stored prompt as they were before the routine
  started, without any durable write of the prompt, and with the error badge set.
\<close>

theorem stage1_failure_releases:
  assumes "\<not> now - lastUpdateTime g < 2000" and "\<not> isGenerating g"
    and "\<not> missing_credential st" and "throws r"
  shows "\<exists>g' evs. handleUpdateTexts texts tabId now (Resolved # Settings st # Resolved # r # rs) g =
           (g', None, evs) \<and>
         \<not> isGenerating g' \<and>
         lastGeneratedPrompt g' = lastGeneratedPrompt g \<and>
         storedPrompt g' = storedPrompt g \<and>
         (\<forall>p. StorageSet p \<notin> set evs) \<and>
         Badge ''ERR'' \<in> set evs"
proof -
  let ?g1 = "g\<lparr>isGenerating := True, lastUpdateTime := now\<rparr>"
  from assms(3) have key: "openaiApiKey st \<noteq> []" by (simp add: missing_credential_def)
  from update_prompt_failed [OF assms(4) key, of now texts tabId "lastGeneratedPrompt g" ?g1]
  obtain evs where fail: "resume now r (U3 texts tabId st (lastGeneratedPrompt g)) ?g1 =
      (?g1\<lparr>isGenerating := False\<rparr>, None, evs @ [Badge ''ERR'', BadgeColor ''#DB4437''])"
    and quiet: "\<forall>p. StorageSet p \<notin> set evs" by blast
  note update_reaches_stage1 [OF assms(1-3) run_task_exit [OF fail]]
  with quiet show ?thesis by simp
qed

theorem stage1_failure_releases_witness:
  "handleUpdateTexts fire (Some 7) 5000
     [Resolved, Settings (st_demo\<lparr>falApiKey := ''fk''\<rparr>), Resolved,
      Completion (HttpError ''rate limit'')]
     \<lparr>isGenerating = False, lastGeneratedPrompt = ''A fire burns.'', lastUpdateTime = 0,
      storedPrompt = ''A fire burns.''\<rparr> =
   (\<lparr>isGenerating = False, lastGeneratedPrompt = ''A fire burns.'', lastUpdateTime = 5000,
     storedPrompt = ''A fire burns.''\<rparr>,
    None,
    [Badge ''...'', BadgeColor ''#4285F4'',
     TraceStart ''generate_creative_image''
       (JObj [(''elements'', JStr ''Fire''), (''previous_prompt'', JStr ''A fire burns.'')]),
     LLMFetch ''sk-1'' ''gpt-4o-mini'' (userPrompt fire ''A fire burns.''),
     TraceEndError ''Error: OpenAI API Error: rate limit'',
     Badge ''ERR'', BadgeColor ''#DB4437''])"
  using stage1_failure_releases [of 5000
          "\<lparr>isGenerating = False, lastGeneratedPrompt = ''A fire burns.'', lastUpdateTime = 0,
            storedPrompt = ''A fire burns.''\<rparr>"
          "st_demo\<lparr>falApiKey := ''fk''\<rparr>" "Completion (HttpError ''rate limit'')"
          fire "Some 7" "[]"]
  by (simp add: st_demo_def fire_def missing_credential_def startsWith_def
        updateTraceInputs_def sensitive_def toLowerCase_def toLowerChar_def
        handleUpdateTexts_def generatePromptFromTexts_def innerError_def caught_def)

section \<open>Credential gating\<close>

lemma update_credential_gate:
  assumes "\<not> now - lastUpdateTime g < 2000" and "\<not> isGenerating g" and "missing_credential st"
  shows "handleUpdateTexts texts tabId now (Resolved # Settings st # rs) g =
           (g\<lparr>isGenerating := False, lastUpdateTime := now\<rparr>, None,
            [Badge ''...'', BadgeColor ''#4285F4'', Badge ''KEY'', BadgeColor ''#F4B400''])"
proof -
  note run_task_exit [OF update_gate_closed [OF assms(3)]]
  note run_task_continue [OF update_accepted [OF assms(1,2)] this]
  then show ?thesis by (simp add: handleUpdateTexts_def)
qed

text \<open>
  C3. In \<^verbatim>\<open>handleUpdateTexts\<close> a missing credential ends the routine with the badge
  \<^verbatim>\<open>KEY\<close> before any network call (lemma \<open>update_credential_gate\<close>).
  \<^verbatim>\<open>handleRegenerateImage\<close> has no such check: with the FAL model selected and an empty FAL
  key it starts the trace, the client throws \<^verbatim>\<open>FAL API Key is missing.\<close> before its
  submit call, and the routine ends in the outer \<^verbatim>\<open>catch\<close> with the badge \<^verbatim>\<open>ERR\<close>; the lock
  is released and no provider call is issued, but the status signal is the generic error,
  not the missing-key one.
\<close>

theorem regenerate_without_key_reports_error:
  "handleRegenerateImage [Resolved, Tabs ts, Settings st_demo, Resolved, Network net]
     \<lparr>isGenerating = False, lastGeneratedPrompt = ''A fire burns.'', lastUpdateTime = 0,
      storedPrompt = ''A fire burns.''\<rparr> =
   (\<lparr>isGenerating = False, lastGeneratedPrompt = ''A fire burns.'', lastUpdateTime = 0,
     storedPrompt = ''A fire burns.''\<rparr>,
    None,
    [Badge ''...'', BadgeColor ''#4285F4'',
     TraceStart ''regenerate_image'' (JObj [(''prompt'', JStr ''A fire burns.'')]),
     TraceEndError ''Error: FAL API Key is missing.'',
     Badge ''ERR'', BadgeColor ''#DB4437''])"
  by (simp add: handleRegenerateImage_def regenerate_guards_def st_demo_def imageStage_def
        startsWith_def getImageFromFal_def innerError_def caught_def
        sensitive_def toLowerCase_def toLowerChar_def)


section \<open>The shape of every polling run\<close>

lemma fal_poll_shape:
  "fal_poll apiUrl requestId statuses attempts evs = (res, out) \<Longrightarrow>
   \<exists>n. n \<le> 20 - attempts \<and>
       out = evs @ concat (replicate n
               [Sleep 500, Poll FAL (apiUrl @ ''/requests/'' @ requestId)]) \<and>
       (\<forall>r. res = Inr r \<longrightarrow> imageType r = ''jpeg'')"
proof (induction apiUrl requestId statuses attempts evs arbitrary: res out rule: fal_poll.induct)
  case (1 apiUrl requestId statuses attempts evs)
  let ?round = "[Sleep 500, Poll FAL (apiUrl @ ''/requests/'' @ requestId)]"
  let ?P = "\<lambda>n. n \<le> 20 - attempts \<and> out = evs @ concat (replicate n ?round) \<and>
       (\<forall>r. res = Inr r \<longrightarrow> imageType r = ''jpeg'')"
  show ?case
  proof (cases "attempts < 20")
    case False
    with "1.prems" have "?P 0" by (subst (asm) fal_poll.simps) auto
    then show ?thesis by blast
  next
    case True
    show ?thesis
    proof (cases "statuses attempts")
      case (NetworkError e)
      with True "1.prems" have "?P 1" by (subst (asm) fal_poll.simps) (auto simp: Let_def)
      then show ?thesis by blast
    next
      case (HttpError t)
      with True "1.prems" have "?P 1" by (subst (asm) fal_poll.simps) (auto simp: Let_def)
      then show ?thesis by blast
    next
      case (HttpOk d)
      show ?thesis
      proof (cases "fal_status d = ''COMPLETED'' \<or> fal_status d = ''FAILED''")
        case terminal: True
        with True HttpOk "1.prems" have "?P 1"
          by (subst (asm) fal_poll.simps) (auto simp: Let_def split: list.splits)
        then show ?thesis by blast
      next
        case pending: False
        with True HttpOk "1.prems"
        have rec: "fal_poll apiUrl requestId statuses (attempts + 1) (evs @ ?round) = (res, out)"
          by (subst (asm) fal_poll.simps) (simp add: Let_def)
        from pending have "fal_status d \<noteq> ''COMPLETED''" "fal_status d \<noteq> ''FAILED''" by simp_all
        from "1.IH" [OF True refl HttpOk this rec]
        obtain n where n: "n \<le> 20 - (attempts + 1)"
          "out = (evs @ ?round) @ concat (replicate n ?round)"
          "\<forall>r. res = Inr r \<longrightarrow> imageType r = ''jpeg''" by blast
        with True have "?P (Suc n)" by simp
        then show ?thesis by blast
      qed
    qed
  qed
qed

lemma replicate_poll_shape:
  "replicate_poll getUrl statuses attempts evs = (res, out) \<Longrightarrow>
   \<exists>n. n \<le> 40 - attempts \<and>
       out = evs @ concat (replicate n [Sleep 500, Poll Replicate getUrl]) \<and>
       (\<forall>r. res = Inr r \<longrightarrow> (\<exists>output. extractResult output = Inr r))"
proof (induction getUrl statuses attempts evs arbitrary: res out rule: replicate_poll.induct)
  case (1 getUrl statuses attempts evs)
  let ?round = "[Sleep 500, Poll Replicate getUrl]"
  let ?P = "\<lambda>n. n \<le> 40 - attempts \<and> out = evs @ concat (replicate n ?round) \<and>
       (\<forall>r. res = Inr r \<longrightarrow> (\<exists>output. extractResult output = Inr r))"
  show ?case
  proof (cases "attempts < 40")
    case False
    with "1.prems" have "?P 0" by (subst (asm) replicate_poll.simps) auto
    then show ?thesis by blast
  next
    case True
    show ?thesis
    proof (cases "statuses attempts")
      case (NetworkError e)
      with True "1.prems" have "?P 1" by (subst (asm) replicate_poll.simps) (auto simp: Let_def)
      then show ?thesis by blast
    next
      case (HttpError t)
      with True "1.prems" have "?P 1" by (subst (asm) replicate_poll.simps) (auto simp: Let_def)
      then show ?thesis by blast
    next
      case (HttpOk d)
      show ?thesis
      proof (cases "rep_status d = ''succeeded'' \<or> rep_status d = ''failed'' \<or>
                    rep_status d = ''canceled''")
        case terminal: True
        with True HttpOk "1.prems" have "?P 1"
          by (subst (asm) replicate_poll.simps) (auto simp: Let_def split: if_splits)
        then show ?thesis by blast
      next
        case pending: False
        with True HttpOk "1.prems"
        have rec: "replicate_poll getUrl statuses (attempts + 1) (evs @ ?round) = (res, out)"
          by (subst (asm) replicate_poll.simps) (simp add: Let_def)
        from pending have "rep_status d \<noteq> ''succeeded''" "rep_status d \<noteq> ''failed''"
          "rep_status d \<noteq> ''canceled''" by simp_all
        from "1.IH" [OF True refl HttpOk this rec]
        obtain n where n: "n \<le> 40 - (attempts + 1)"
          "out = (evs @ ?round) @ concat (replicate n ?round)"
          "\<forall>r. res = Inr r \<longrightarrow> (\<exists>output. extractResult output = Inr r)" by blast
        with True have "?P (Suc n)" by simp
        then show ?thesis by blast
      qed
    qed
  qed
qed


section \<open>Provider routing\<close>

lemma only_provider_append:
  "only_provider pr (xs @ ys) = (only_provider pr xs \<and> only_provider pr ys)"
  by (simp add: only_provider_def)

lemma only_provider_rounds: "only_provider pr (concat (replicate n [Sleep ms, Poll pr u]))"
  by (induction n) (simp_all add: only_provider_def)

lemma only_provider_submit: "only_provider pr [Submit pr u p]"
  by (simp add: only_provider_def)

lemma only_provider_Nil: "only_provider pr []"
  by (simp add: only_provider_def)

lemma getImageFromFal_only_FAL: "only_provider FAL (snd (getImageFromFal p k m sub sts))"
proof -
  have poll: "only_provider FAL (snd (fal_poll a r sts 0 [Submit FAL a p]))" for a r
  proof -
    obtain res out where run: "fal_poll a r sts 0 [Submit FAL a p] = (res, out)"
      by (cases "fal_poll a r sts 0 [Submit FAL a p]")
    from fal_poll_shape [OF run] obtain n where
      "out = [Submit FAL a p] @ concat (replicate n [Sleep 500, Poll FAL (a @ ''/requests/'' @ r)])"
      by blast
    then show ?thesis using run
      by (simp only: snd_conv only_provider_append only_provider_rounds only_provider_submit)
  qed
  show ?thesis
    by (cases sub) (auto simp: getImageFromFal_def Let_def poll only_provider_submit
                         only_provider_Nil split: list.splits)
qed

lemma getImageFromReplicate_only_Replicate:
  "only_provider Replicate (snd (getImageFromReplicate p k m sub sts))"
proof -
  have poll: "only_provider Replicate (snd (replicate_poll u sts 0 [Submit Replicate a p]))" for a u
  proof -
    obtain res out where run: "replicate_poll u sts 0 [Submit Replicate a p] = (res, out)"
      by (cases "replicate_poll u sts 0 [Submit Replicate a p]")
    from replicate_poll_shape [OF run] obtain n where
      "out = [Submit Replicate a p] @ concat (replicate n [Sleep 500, Poll Replicate u])"
      by blast
    then show ?thesis using run
      by (simp only: snd_conv only_provider_append only_provider_rounds only_provider_submit)
  qed
  show ?thesis
    by (cases sub) (auto simp: getImageFromReplicate_def Let_def poll only_provider_submit
                         only_provider_Nil split: option.splits)
qed

lemma fal_prefix_not_replicate: "startsWith m ''fal'' \<Longrightarrow> \<not> startsWith m ''replicate''"
  by (cases m) (auto simp: startsWith_def)

lemma unknown_replicate_model:
  "m \<noteq> ''replicate-z-image-turbo'' \<Longrightarrow> m \<noteq> ''replicate-pruna-p-image'' \<Longrightarrow>
   replicate_endpoint m = None"
  by (simp add: replicate_endpoint_def)

lemma update_image_failed:
  "imageStage st p net = (Inl e, evs) \<Longrightarrow>
   resume now (Network net) (U4 texts tabId st p) g =
     (g\<lparr>isGenerating := False\<rparr>, None,
      evs @ [TraceEndError (toString e), Badge ''ERR'', BadgeColor ''#DB4437''])"
  by (simp add: innerError_def caught_def)

text \<open>
  C6. Provider routing. An identifier with the prefix \<^verbatim>\<open>replicate\<close> sends Stage 2 to the
  Replicate client and every network call of the stage is one of that client; an
  identifier with the prefix \<^verbatim>\<open>fal\<close> sends it to the FAL client likewise. A Replicate
  identifier other than the two supported ones, with the Replicate credential present,
  fails with \<^verbatim>\<open>Unknown Replicate model\<close> and no network call of the stage; in
  \<^verbatim>\<open>handleUpdateTexts\<close>, where the credential checks come first, a fresh generation with
  such an identifier ends with that error after Stage 1, without any provider call.
\<close>

theorem provider_routing:
  "(startsWith (imageModel st) ''replicate'' \<longrightarrow>
      imageStage st p net =
        getImageFromReplicate p (replicateApiKey st) (imageModel st)
          (rep_submitted net) (rep_statuses net) \<and>
      only_provider Replicate (snd (imageStage st p net)))
   \<and> (startsWith (imageModel st) ''fal'' \<longrightarrow>
      imageStage st p net =
        getImageFromFal p (falApiKey st) (imageModel st) (fal_submitted net) (fal_statuses net) \<and>
      only_provider FAL (snd (imageStage st p net)))
   \<and> (startsWith (imageModel st) ''replicate'' \<and>
      imageModel st \<noteq> ''replicate-z-image-turbo'' \<and>
      imageModel st \<noteq> ''replicate-pruna-p-image'' \<and> replicateApiKey st \<noteq> [] \<longrightarrow>
      imageStage st p net = (Inl (Error (''Unknown Replicate model: '' @ imageModel st)), []))
   \<and> (startsWith (imageModel st) ''replicate'' \<and>
      imageModel st \<noteq> ''replicate-z-image-turbo'' \<and>
      imageModel st \<noteq> ''replicate-pruna-p-image'' \<and>
      \<not> now - lastUpdateTime g < 2000 \<and> \<not> isGenerating g \<and> \<not> missing_credential st \<longrightarrow>
      handleUpdateTexts texts tabId now
        [Resolved, Settings st, Resolved, Completion (HttpOk d), Network net] g =
      (g\<lparr>isGenerating := False, lastUpdateTime := now,
         lastGeneratedPrompt := trim (content d), storedPrompt := trim (content d)\<rparr>,
       None,
       [Badge ''...'', BadgeColor ''#4285F4'',
        TraceStart ''generate_creative_image''
          (sanitizeInputs (updateTraceInputs texts (lastGeneratedPrompt g))),
        LLMFetch (openaiApiKey st) (llmModel st) (userPrompt texts (lastGeneratedPrompt g)),
        StorageSet (trim (content d)),
        TraceEndError (''Error: Unknown Replicate model: '' @ imageModel st),
        Badge ''ERR'', BadgeColor ''#DB4437'']))"
proof -
  have rep: "imageStage st p net =
        getImageFromReplicate p (replicateApiKey st) (imageModel st)
          (rep_submitted net) (rep_statuses net) \<and>
      only_provider Replicate (snd (imageStage st p net))"
    if "startsWith (imageModel st) ''replicate''"
    using that getImageFromReplicate_only_Replicate by (simp add: imageStage_def)
  have fal: "imageStage st p net =
        getImageFromFal p (falApiKey st) (imageModel st) (fal_submitted net) (fal_statuses net) \<and>
      only_provider FAL (snd (imageStage st p net))"
    if "startsWith (imageModel st) ''fal''"
    using fal_prefix_not_replicate [OF that] getImageFromFal_only_FAL
    by (simp add: imageStage_def)
  have unknown: "imageStage st' p' net' =
      (Inl (Error (''Unknown Replicate model: '' @ imageModel st')), [])"
    if "startsWith (imageModel st') ''replicate''"
      "imageModel st' \<noteq> ''replicate-z-image-turbo''"
      "imageModel st' \<noteq> ''replicate-pruna-p-image''" "replicateApiKey st' \<noteq> []"
    for st' p' net'
    using that
    by (simp add: imageStage_def getImageFromReplicate_def unknown_replicate_model)
  have fresh: "handleUpdateTexts texts tabId now
        [Resolved, Settings st, Resolved, Completion (HttpOk d), Network net] g =
      (g\<lparr>isGenerating := False, lastUpdateTime := now,
         lastGeneratedPrompt := trim (content d), storedPrompt := trim (content d)\<rparr>,
       None,
       [Badge ''...'', BadgeColor ''#4285F4'',
        TraceStart ''generate_creative_image''
          (sanitizeInputs (updateTraceInputs texts (lastGeneratedPrompt g))),
        LLMFetch (openaiApiKey st) (llmModel st) (userPrompt texts (lastGeneratedPrompt g)),
        StorageSet (trim (content d)),
        TraceEndError (''Error: Unknown Replicate model: '' @ imageModel st),
        Badge ''ERR'', BadgeColor ''#DB4437''])"
    if m: "startsWith (imageModel st) ''replicate''"
      "imageModel st \<noteq> ''replicate-z-image-turbo''"
      "imageModel st \<noteq> ''replicate-pruna-p-image''"
      and guards: "\<not> now - lastUpdateTime g < 2000" "\<not> isGenerating g"
      and gate: "\<not> missing_credential st"
  proof -
    from gate m(1) have key: "replicateApiKey st \<noteq> []" by (simp add: missing_credential_def)
    from gate have okey: "openaiApiKey st \<noteq> []" by (simp add: missing_credential_def)
    note run_task_exit [where rs = "[]", OF update_image_failed [OF unknown [OF m key]]]
    note run_task_continue [OF update_prompt_generated [OF okey] this]
    note update_reaches_stage1 [OF guards gate this]
    then show ?thesis by simp
  qed
  show ?thesis using rep fal unknown fresh by blast
qed


theorem provider_routing_witness:
  "imageStage st_unknown ''Steam rises.'' net_down =
     (Inl (Error ''Unknown Replicate model: replicate-sdxl''), [])
   \<and> only_provider Replicate (snd (imageStage st_unknown ''Steam rises.'' net_down))
   \<and> only_provider FAL
        (snd (imageStage (st_demo\<lparr>falApiKey := ''fk''\<rparr>) ''Steam rises.'' net_down))
   \<and> handleUpdateTexts fire (Some 7) 5000
        [Resolved, Settings st_unknown, Resolved,
         Completion (HttpOk (Completion_data ''Steam rises.'' None)), Network net_down]
        \<lparr>isGenerating = False, lastGeneratedPrompt = [], lastUpdateTime = 0, storedPrompt = []\<rparr> =
      (\<lparr>isGenerating = False, lastGeneratedPrompt = ''Steam rises.'', lastUpdateTime = 5000,
        storedPrompt = ''Steam rises.''\<rparr>,
       None,
       [Badge ''...'', BadgeColor ''#4285F4'',
        TraceStart ''generate_creative_image'' (JObj [(''elements'', JStr ''Fire'')]),
        LLMFetch ''sk-1'' ''gpt-4o-mini'' (userPrompt fire []),
        StorageSet ''Steam rises.'',
        TraceEndError ''Error: Unknown Replicate model: replicate-sdxl'',
        Badge ''ERR'', BadgeColor ''#DB4437''])"
  using provider_routing [of st_unknown "''Steam rises.''" net_down 5000
          "\<lparr>isGenerating = False, lastGeneratedPrompt = [], lastUpdateTime = 0, storedPrompt = []\<rparr>"
          fire "Some 7" "Completion_data ''Steam rises.'' None"]
        provider_routing [of "st_demo\<lparr>falApiKey := ''fk''\<rparr>" "''Steam rises.''" net_down]
  by (simp add: st_unknown_def st_demo_def fire_def missing_credential_def startsWith_def
        trim_def whitespace_def updateTraceInputs_def sensitive_def toLowerCase_def
        toLowerChar_def imageStage_def getImageFromReplicate_def replicate_endpoint_def
        getImageFromFal_def fal_modelPath_def net_down_def only_provider_def Let_def)


section \<open>Image type resolution\<close>

lemma startsWith_shorter: "startsWith u (p @ q) \<Longrightarrow> startsWith u p"
proof -
  assume "startsWith u (p @ q)"
  then have "take (length p) (take (length p + length q) u) = take (length p) (p @ q)"
    by (simp add: startsWith_def)
  then show ?thesis by (simp add: startsWith_def min_def)
qed

lemma data_uri_prefix: "match_data_uri u = Some x \<Longrightarrow> startsWith u ''data:image''"
proof -
  assume "match_data_uri u = Some x"
  then have "startsWith u (''data:image'' @ ''/'')"
    by (simp add: match_data_uri_def split: if_splits)
  then show ?thesis by (rule startsWith_shorter)
qed

lemma extractResult_imageType:
  assumes "extractResult out = Inr r"
  shows "imageType r = spec_imageType (url r)"
proof -
  from assms obtain u where u: "first_output out = Some u"
    by (auto simp: extractResult_def split: option.splits)
  show ?thesis
  proof (cases "match_data_uri u")
    case None
    with assms u show ?thesis
      by (auto simp: extractResult_def spec_imageType_def split: if_splits)
  next
    case (Some x)
    from data_uri_prefix [OF Some] Some assms u show ?thesis
      by (cases x) (auto simp: extractResult_def spec_imageType_def)
  qed
qed

lemma getImageFromReplicate_imageType:
  assumes "getImageFromReplicate p k m sub sts = (Inr r, evs)"
  shows "imageType r = spec_imageType (url r)"
proof -
  from assms have "(\<exists>output. extractResult output = Inr r) \<or>
      (\<exists>u a. replicate_poll u sts 0 [Submit Replicate a p] = (Inr r, evs))"
    by (cases sub)
       (auto simp: getImageFromReplicate_def Let_def split: if_splits option.splits)
  then show ?thesis
    using replicate_poll_shape extractResult_imageType by blast
qed

lemma getImageFromFal_imageType:
  assumes "getImageFromFal p k m sub sts = (Inr r, evs)"
  shows "imageType r = ''jpeg''"
proof -
  from assms have "imageType r = ''jpeg'' \<or>
      (\<exists>a q. fal_poll a q sts 0 [Submit FAL a p] = (Inr r, evs))"
    by (cases sub)
       (auto simp: getImageFromFal_def Let_def split: if_splits list.splits)
  then show ?thesis
    using fal_poll_shape by blast
qed

text \<open>
  C9, as amended. An image result of the Replicate client has the image type of the
  specification's order without the mime-hint tier: the subtype of an inline
  \<^verbatim>\<open>data:image/...;base64,\<close> output, else \<^verbatim>\<open>webp\<close> or \<^verbatim>\<open>png\<close> when the URL contains
  \<^verbatim>\<open>.webp\<close> or \<^verbatim>\<open>.png\<close>, else \<^verbatim>\<open>jpeg\<close>. An image result of the FAL client always has the
  image type \<^verbatim>\<open>jpeg\<close>, the output format the client requests.
\<close>

theorem imageType_resolution:
  "(getImageFromReplicate p k m sub sts = (Inr r, evs) \<longrightarrow>
      imageType r = spec_imageType (url r))
   \<and> (getImageFromFal p' k' m' sub' sts' = (Inr r', evs') \<longrightarrow> imageType r' = ''jpeg'')"
  using getImageFromReplicate_imageType getImageFromFal_imageType by blast

theorem imageType_resolution_witness:
  "getImageFromReplicate ''a scene'' ''r8'' ''replicate-pruna-p-image'' (HttpOk rep_inline)
     (\<lambda>k. HttpOk rep_starting) =
     (Inr \<lparr>url = ''data:image/png;base64,iVBORw0KGgo='', base64 = Some ''iVBORw0KGgo='',
           imageType = ''png''\<rparr>,
      [Submit Replicate ''https://api.replicate.com/v1/models/prunaai/p-image/predictions''
         ''a scene''])
   \<and> spec_imageType ''data:image/png;base64,iVBORw0KGgo='' = ''png''
   \<and> getImageFromFal ''a scene'' ''fk'' ''fal-z-image-turbo'' (HttpOk fal_png)
        (\<lambda>k. HttpOk fal_queued) =
     (Inr \<lparr>url = ''https://fal.media/files/a.png'', base64 = None, imageType = ''jpeg''\<rparr>,
      [Submit FAL ''https://fal.run/fal-ai/z-image/turbo'' ''a scene''])"
  using imageType_resolution [of "''a scene''" "''r8''" "''replicate-pruna-p-image''"
          "HttpOk rep_inline" "\<lambda>k. HttpOk rep_starting"
          "\<lparr>url = ''data:image/png;base64,iVBORw0KGgo='', base64 = Some ''iVBORw0KGgo='',
            imageType = ''png''\<rparr>"
          "[Submit Replicate ''https://api.replicate.com/v1/models/prunaai/p-image/predictions''
              ''a scene'']"
          "''a scene''" "''fk''" "''fal-z-image-turbo''" "HttpOk fal_png" "\<lambda>k. HttpOk fal_queued"
          "\<lparr>url = ''https://fal.media/files/a.png'', base64 = None, imageType = ''jpeg''\<rparr>"
          "[Submit FAL ''https://fal.run/fal-ai/z-image/turbo'' ''a scene'']"]
  by (simp add: getImageFromReplicate_def getImageFromFal_def replicate_endpoint_def
        rep_inline_def fal_png_def extractResult_def match_data_uri_def startsWith_def
        word_char_def line_terminator_def spec_imageType_def fal_modelPath_def Let_def)

text \<open>
  C9 as stated fails on the FAL client: the result URL is not inline data, no mime hint is
  declared, the URL ends in \<^verbatim>\<open>.png\<close>, and the image type is \<^verbatim>\<open>jpeg\<close> where the stated order
  gives \<^verbatim>\<open>png\<close>.
\<close>

theorem imageType_fal_ignores_url:
  "fst (getImageFromFal ''a scene'' ''fk'' ''fal-z-image-turbo'' (HttpOk fal_png)
          (\<lambda>k. HttpOk fal_queued)) =
     Inr \<lparr>url = ''https://fal.media/files/a.png'', base64 = None, imageType = ''jpeg''\<rparr>
   \<and> spec_imageType ''https://fal.media/files/a.png'' = ''png''"
  by (simp add: getImageFromFal_def fal_png_def fal_modelPath_def startsWith_def
        spec_imageType_def match_data_uri_def url_imageType_def Let_def)


section \<open>The default FAL model\<close>

lemma fal_modelPath_default:
  "\<not> startsWith m ''fal-'' \<Longrightarrow> fal_modelPath m = ''fal-ai/z-image/turbo''"
  by (simp add: fal_modelPath_def)

lemma fal_modelPath_turbo: "fal_modelPath ''fal-z-image-turbo'' = ''fal-ai/z-image/turbo''"
  by (simp add: fal_modelPath_def)

lemma getImageFromFal_submits_first:
  assumes "k \<noteq> []"
  shows "\<exists>more. snd (getImageFromFal p k m sub sts) =
           Submit FAL (''https://fal.run/'' @ fal_modelPath m) p # more"
proof -
  have poll: "\<exists>more. snd (fal_poll a q sts 0 [Submit FAL a p]) = Submit FAL a p # more" for a q
  proof -
    obtain res out where run: "fal_poll a q sts 0 [Submit FAL a p] = (res, out)"
      by (cases "fal_poll a q sts 0 [Submit FAL a p]")
    from fal_poll_shape [OF run] run show ?thesis by auto
  qed
  show ?thesis using assms
    by (cases sub) (auto simp: getImageFromFal_def Let_def poll split: list.splits)
qed

text \<open>
  C10. For an identifier \<open>m\<close> without the prefix \<^verbatim>\<open>fal-\<close>, the FAL client uses the default
  model path \<^verbatim>\<open>fal-ai/z-image/turbo\<close>: it behaves as for \<^verbatim>\<open>fal-z-image-turbo\<close> on every
  input, and with a credential its first call is the submit to
  \<^verbatim>\<open>https://fal.run/fal-ai/z-image/turbo\<close>. When \<open>m\<close> has not the prefix \<^verbatim>\<open>replicate\<close> either,
  Stage 2 with \<open>m\<close> configured is that FAL call; when it has neither the prefix \<^verbatim>\<open>fal\<close>,
  the credential checks of \<^verbatim>\<open>handleUpdateTexts\<close> ask for the prompt credential only; and
  when FAL answers with an image, the stage returns it: no failure reports the
  unrecognized identifier.
\<close>

theorem unrecognized_model_defaults_to_fal:
  assumes "\<not> startsWith m ''fal-''"
  shows "fal_modelPath m = ''fal-ai/z-image/turbo''
       \<and> getImageFromFal p k m sub sts = getImageFromFal p k ''fal-z-image-turbo'' sub sts
       \<and> (k \<noteq> [] \<longrightarrow>
            (\<exists>more. snd (getImageFromFal p k m sub sts) =
                      Submit FAL ''https://fal.run/fal-ai/z-image/turbo'' p # more))
       \<and> (\<not> startsWith m ''replicate'' \<longrightarrow>
            imageStage (st\<lparr>imageModel := m\<rparr>) p net =
              getImageFromFal p (falApiKey st) ''fal-z-image-turbo''
                (fal_submitted net) (fal_statuses net))
       \<and> (\<not> startsWith m ''replicate'' \<and> \<not> startsWith m ''fal'' \<longrightarrow>
            missing_credential (st\<lparr>imageModel := m\<rparr>) = (openaiApiKey st = []))
       \<and> (\<not> startsWith m ''replicate'' \<and> falApiKey st \<noteq> [] \<and>
          fal_submitted net = HttpOk d \<and> fal_images d = img # imgs \<longrightarrow>
            imageStage (st\<lparr>imageModel := m\<rparr>) p net =
              (Inr \<lparr>url = image_url img,
                    base64 = (if image_base64 img \<noteq> [] then Some (image_base64 img) else None),
                    imageType = ''jpeg''\<rparr>,
               [Submit FAL ''https://fal.run/fal-ai/z-image/turbo'' p]))"
proof -
  note path = fal_modelPath_default [OF assms]
  have same: "getImageFromFal p' k' m sub' sts' = getImageFromFal p' k' ''fal-z-image-turbo'' sub' sts'"
    for p' k' sub' sts'
    by (simp add: getImageFromFal_def path fal_modelPath_turbo)
  have first: "\<exists>more. snd (getImageFromFal p k m sub sts) =
                      Submit FAL ''https://fal.run/fal-ai/z-image/turbo'' p # more"
    if "k \<noteq> []"
    using getImageFromFal_submits_first [OF that, of p m sub sts] by (simp add: path)
  have stage: "imageStage (st\<lparr>imageModel := m\<rparr>) p net =
              getImageFromFal p (falApiKey st) ''fal-z-image-turbo''
                (fal_submitted net) (fal_statuses net)"
    if "\<not> startsWith m ''replicate''"
    using that by (simp add: imageStage_def same)
  have gate: "missing_credential (st\<lparr>imageModel := m\<rparr>) = (openaiApiKey st = [])"
    if "\<not> startsWith m ''replicate''" "\<not> startsWith m ''fal''"
    using that by (simp add: missing_credential_def)
  have image: "imageStage (st\<lparr>imageModel := m\<rparr>) p net =
              (Inr \<lparr>url = image_url img,
                    base64 = (if image_base64 img \<noteq> [] then Some (image_base64 img) else None),
                    imageType = ''jpeg''\<rparr>,
               [Submit FAL ''https://fal.run/fal-ai/z-image/turbo'' p])"
    if "\<not> startsWith m ''replicate''" "falApiKey st \<noteq> []"
      "fal_submitted net = HttpOk d" "fal_images d = img # imgs"
    using that by (simp add: stage getImageFromFal_def fal_modelPath_turbo)
  show ?thesis using path same first stage gate image by blast
qed

theorem unrecognized_model_defaults_to_fal_witness:
  "fal_modelPath ''dall-e-3'' = ''fal-ai/z-image/turbo''
   \<and> imageStage (st_demo\<lparr>falApiKey := ''fk'', imageModel := ''dall-e-3''\<rparr>)
        ''a scene'' net_image =
      (Inr \<lparr>url = ''https://fal.media/files/a.png'', base64 = None, imageType = ''jpeg''\<rparr>,
       [Submit FAL ''https://fal.run/fal-ai/z-image/turbo'' ''a scene''])
   \<and> missing_credential (st_demo\<lparr>falApiKey := [], imageModel := ''dall-e-3''\<rparr>) = False"
  using unrecognized_model_defaults_to_fal [of "''dall-e-3''" "''a scene''" "''fk''"
          "HttpOk fal_png" "\<lambda>k. HttpOk fal_queued" "st_demo\<lparr>falApiKey := ''fk''\<rparr>"
          net_image fal_png "FalImage ''https://fal.media/files/a.png'' []" "[]"]
        unrecognized_model_defaults_to_fal [of "''dall-e-3''" "''a scene''" "''fk''"
          "HttpOk fal_png" "\<lambda>k. HttpOk fal_queued" "st_demo\<lparr>falApiKey := []\<rparr>"
          net_image fal_png "FalImage ''https://fal.media/files/a.png'' []" "[]"]
  by (simp add: startsWith_def st_demo_def net_image_def net_down_def fal_png_def
        imageStage_def getImageFromFal_def fal_modelPath_def missing_credential_def Let_def)


end
